theory Spec2Isabelle
  imports Complex_Main
begin

section \<open>The write path of the event store: Push and writeEvents\<close>

text \<open>
  The Go file under verification defines \<open>Eventstore.Push\<close>, the method
  \<open>Eventstore.writeEvents\<close>, the function \<open>writeEvents\<close> and \<open>checkExecutionPlan\<close>.
  Everything they call on the database (connection, transaction, rows) and the helpers
  declared in other files of the package (\<open>commandsToEvents\<close>, \<open>handleUniqueConstraints\<close>,
  \<open>handleFieldCommands\<close>, \<open>registerEventstoreTypes\<close>, \<open>isSetupNotExecutedError\<close>,
  \<open>pushWithoutFunc\<close>) is a field of the record \<open>Eventstore\<close> below: the answer the
  collaborator gives when the code calls it. Every call the code makes is appended to a
  trace, so that the order of the calls and their absence can be stated. The tracing span
  is left out: it has no influence on results or on the calls to the backend.
\<close>

subsection \<open>Data\<close>

text \<open>A Go \<open>error\<close> value; the nil error is \<open>None\<close> of \<open>error option\<close>.\<close>

datatype error = Error string

text \<open>
  Modelled from the spec: \<open>eventstore.Command\<close> is an interface declared outside the
  shown source. A command names its aggregate, its type and carries an opaque payload.
\<close>

datatype Command = Command (aggregate_id: string) (command_type: string) (command_payload: string)

text \<open>
  Modelled from the spec: the struct \<open>event\<close> is declared outside the shown source. The
  code writes its three fields \<open>createdAt\<close>, \<open>sequence\<close> and \<open>position\<close>; all other
  attributes are carried from the command.
\<close>

record event =
  command :: Command
  createdAt :: int
  sequence :: nat
  position :: real

text \<open>
  A value of the interface \<open>eventstore.Event\<close>: a pointer to an \<open>event\<close>, a nil pointer of
  type \<open>*event\<close>, or a value of any other dynamic type (the nil interface included).
  Each slot of an event slice holds an object of its own.
\<close>

datatype Event = EventPtr event | NilEventPtr | OtherEvent

text \<open>The element type of the payload \<open>cmds\<close> that \<open>commandsToEvents\<close> builds.\<close>

datatype command = Encoded string

text \<open>One result row of the bulk insert: creation timestamp, sequence, position.\<close>

type_synonym row = "int \<times> nat \<times> real"

text \<open>
  The \<open>*sql.Rows\<close> a query returns: \<open>Next\<close> is true once for every entry of \<open>scans\<close>,
  \<open>Scan\<close> on that row fails (\<open>Inl\<close>) or yields the three values, and \<open>Err\<close> reports
  \<open>rows_err\<close> after the iteration.
\<close>

record Rows =
  scans :: "(error + row) list"
  rows_err :: "error option"

datatype IsolationLevel =
  LevelDefault | LevelReadUncommitted | LevelReadCommitted | LevelWriteCommitted
  | LevelRepeatableRead | LevelSnapshot | LevelSerializable | LevelLinearizable

record TxOptions =
  Isolation :: IsolationLevel
  ReadOnly :: bool

text \<open>The dynamic type of the driver connection handed to the callback of \<open>conn.Raw\<close>.\<close>

datatype DriverConn = StdlibConn | ForeignConn

datatype panic = IndexOutOfRange nat nat | InterfaceConversion | NilPointerDereference

text \<open>A call returns its results or panics.\<close>

datatype 'a outcome = Return 'a | Panic panic

text \<open>The calls the code makes, in the order it makes them.\<close>

datatype op =
    Conn
  | ConnClose
  | TypeForValue
  | RegisterEventstoreTypes
  | BeginTx TxOptions
  | QueryContext string "command list"
  | RowsClose
  | HandleUniqueConstraints "Command list"
  | Exec string
  | HandleFieldCommands "Command list"
  | Rollback "error option"
  | Commit "error option"
  | LogWarn string error
  | PushWithoutFunc "Command list"

text \<open>
  The receiver \<open>es\<close> with its client, and the answers of the collaborators. The Go slice
  \<open>nil\<close> is the empty list.
\<close>

record Eventstore =
  client_Conn :: "error option"
  client_Type :: string
  driverConn :: DriverConn
  registerEventstoreTypes :: "bool \<Rightarrow> error option \<times> bool"
  conn_BeginTx :: "TxOptions \<Rightarrow> error option"
  commandsToEvents :: "Command list \<Rightarrow> error + (Event list \<times> command list)"
  push2Stmt :: string
  tx_QueryContext :: "string \<Rightarrow> command list \<Rightarrow> error + Rows"
  handleUniqueConstraints :: "Command list \<Rightarrow> error option"
  tx_Exec :: "string \<Rightarrow> error option"
  handleFieldCommands :: "Command list \<Rightarrow> error option"
  tx_Rollback :: "error option"
  tx_Commit :: "error option"
  isSetupNotExecutedError :: "error option \<Rightarrow> bool"
  pushWithoutFunc :: "Command list \<Rightarrow> (Event list \<times> error option) outcome"

text \<open>
  What persists between calls: the trace, and whether the type map of the connection
  knows the type of \<open>*command\<close>.
\<close>

record world =
  trace :: "op list"
  type_known :: bool

definition emit :: "op \<Rightarrow> world \<Rightarrow> world" where
  "emit a w = w\<lparr>trace := trace w @ [a]\<rparr>"

subsection \<open>The functions of the source\<close>

text \<open>
  The loop \<open>for i := 0; rows.Next(); i++\<close> of \<open>writeEvents\<close>. The arguments of \<open>Scan\<close>
  are evaluated first: \<open>events[i]\<close> panics out of range, the assertion \<open>.(*event)\<close>
  panics on another dynamic type, and taking the address of a field panics on a nil
  pointer. A failing \<open>Scan\<close> is logged and returned.
\<close>

fun scan_rows :: "nat \<Rightarrow> (error + row) list \<Rightarrow> Event list \<Rightarrow> world
    \<Rightarrow> (Event list \<times> error option) outcome \<times> world" where
  "scan_rows i [] events w = (Return (events, None), w)"
| "scan_rows i (r # rs) events w =
     (if length events \<le> i then (Panic (IndexOutOfRange i (length events)), w)
      else case events ! i of
          OtherEvent \<Rightarrow> (Panic InterfaceConversion, w)
        | NilEventPtr \<Rightarrow> (Panic NilPointerDereference, w)
        | EventPtr e \<Rightarrow>
            (case r of
               Inl err \<Rightarrow> (Return ([], Some err), emit (LogWarn ''failed to scan events'' err) w)
             | Inr (c, s, p) \<Rightarrow>
                 scan_rows (Suc i) rs
                   (events[i := EventPtr (e\<lparr>createdAt := c, sequence := s, position := p\<rparr>)]) w))"

text \<open>The function \<open>writeEvents(ctx, tx, commands)\<close>; \<open>rows.Close\<close> is deferred.\<close>

definition writeEvents :: "Eventstore \<Rightarrow> Command list \<Rightarrow> world
    \<Rightarrow> (Event list \<times> error option) outcome \<times> world" where
  "writeEvents es commands w =
     (case commandsToEvents es commands of
        Inl err \<Rightarrow> (Return ([], Some err), w)
      | Inr (events, cmds) \<Rightarrow>
          (let w1 = emit (QueryContext (push2Stmt es) cmds) w in
           case tx_QueryContext es (push2Stmt es) cmds of
             Inl err \<Rightarrow> (Return ([], Some err), w1)
           | Inr rows \<Rightarrow>
               (case scan_rows 0 (scans rows) events w1 of
                  (Panic p, w2) \<Rightarrow> (Panic p, emit RowsClose w2)
                | (Return (events', Some err), w2) \<Rightarrow> (Return ([], Some err), emit RowsClose w2)
                | (Return (events', None), w2) \<Rightarrow>
                    (case rows_err rows of
                       Some err \<Rightarrow> (Return ([], Some err), emit RowsClose w2)
                     | None \<Rightarrow> (Return (events', None), emit RowsClose w2)))))"

text \<open>
  \<open>checkExecutionPlan\<close>: the callback asserts the driver connection to \<open>*stdlib.Conn\<close>,
  looks the type of \<open>*command\<close> up in the type map and registers the types only when
  the lookup fails. \<open>conn.Raw\<close> runs the callback on the driver connection and returns
  what the callback returns; \<open>registerEventstoreTypes\<close> answers with its error and with
  whether the type map knows the type afterwards.
\<close>

definition checkExecutionPlan :: "Eventstore \<Rightarrow> world \<Rightarrow> error option outcome \<times> world" where
  "checkExecutionPlan es w =
     (case driverConn es of
        ForeignConn \<Rightarrow> (Panic InterfaceConversion, w)
      | StdlibConn \<Rightarrow>
          (let w1 = emit TypeForValue w in
           if type_known w1 then (Return None, w1)
           else (let (err, known) = registerEventstoreTypes es (type_known w1) in
                 (Return err, (emit RegisterEventstoreTypes w1)\<lparr>type_known := known\<rparr>))))"

definition txOptions :: TxOptions where
  "txOptions = \<lparr>Isolation = LevelReadCommitted, ReadOnly = False\<rparr>"

definition enable_multiple_modifications :: string where
  "enable_multiple_modifications = ''SET enable_multiple_modifications_of_table = on''"

text \<open>
  The body of the method \<open>Eventstore.writeEvents\<close> after the transaction is begun, up
  to its \<open>return\<close>: the pair is the slice and the value of \<open>err\<close> at the return.
\<close>

definition tx_steps :: "Eventstore \<Rightarrow> Command list \<Rightarrow> world
    \<Rightarrow> (Event list \<times> error option) outcome \<times> world" where
  "tx_steps es commands w =
     (case writeEvents es commands w of
        (Panic p, w1) \<Rightarrow> (Panic p, w1)
      | (Return (events, Some err), w1) \<Rightarrow> (Return ([], Some err), w1)
      | (Return (events, None), w1) \<Rightarrow>
          (let w2 = emit (HandleUniqueConstraints commands) w1 in
           case handleUniqueConstraints es commands of
             Some err \<Rightarrow> (Return ([], Some err), w2)
           | None \<Rightarrow>
               (case (if client_Type es = ''cockroach''
                      then (tx_Exec es enable_multiple_modifications,
                            emit (Exec enable_multiple_modifications) w2)
                      else (None, w2)) of
                  (Some err, w3) \<Rightarrow> (Return ([], Some err), w3)
                | (None, w3) \<Rightarrow>
                    (let w4 = emit (HandleFieldCommands commands) w3 in
                     case handleFieldCommands es commands of
                       Some err \<Rightarrow> (Return ([], Some err), w4)
                     | None \<Rightarrow> (Return (events, None), w4)))))"

text \<open>
  The deferred function of \<open>Eventstore.writeEvents\<close>. It reads and assigns the named
  result \<open>err\<close>: with an error it rolls back and drops the result of the rollback,
  otherwise it assigns the result of \<open>tx.Commit\<close> to \<open>err\<close> and logs it when it is
  not nil.
\<close>

definition deferred_tx :: "Eventstore \<Rightarrow> error option \<Rightarrow> world \<Rightarrow> error option \<times> world" where
  "deferred_tx es err w =
     (case err of
        Some e \<Rightarrow> (Some e, emit (Rollback (tx_Rollback es)) w)
      | None \<Rightarrow>
          (let w1 = emit (Commit (tx_Commit es)) w in
           case tx_Commit es of
             None \<Rightarrow> (None, w1)
           | Some ce \<Rightarrow> (Some ce, emit (LogWarn ''failed to commit transaction'' ce) w1)))"

text \<open>
  The method \<open>Eventstore.writeEvents\<close>. \<open>conn.Close\<close> is deferred once the connection
  is there, the commit-or-rollback function once the transaction is there. When the
  insert step panics, \<open>err\<close> still holds the nil of \<open>BeginTx\<close>, so the deferred function
  takes its commit branch while the panic unwinds.
\<close>

definition Eventstore_writeEvents :: "Eventstore \<Rightarrow> Command list \<Rightarrow> world
    \<Rightarrow> (Event list \<times> error option) outcome \<times> world" where
  "Eventstore_writeEvents es commands w =
     (let w0 = emit Conn w in
      case client_Conn es of
        Some err \<Rightarrow> (Return ([], Some err), w0)
      | None \<Rightarrow>
          (case checkExecutionPlan es w0 of
             (Panic p, w1) \<Rightarrow> (Panic p, emit ConnClose w1)
           | (Return (Some err), w1) \<Rightarrow> (Return ([], Some err), emit ConnClose w1)
           | (Return None, w1) \<Rightarrow>
               (let w2 = emit (BeginTx txOptions) w1 in
                case conn_BeginTx es txOptions of
                  Some err \<Rightarrow> (Return ([], Some err), emit ConnClose w2)
                | None \<Rightarrow>
                    (case tx_steps es commands w2 of
                       (Panic p, w3) \<Rightarrow>
                         (Panic p, emit ConnClose (snd (deferred_tx es None w3)))
                     | (Return (events, err), w3) \<Rightarrow>
                         (Return (events, fst (deferred_tx es err w3)),
                          emit ConnClose (snd (deferred_tx es err w3)))))))"

text \<open>\<open>Eventstore.Push\<close>.\<close>

definition Push :: "Eventstore \<Rightarrow> Command list \<Rightarrow> world
    \<Rightarrow> (Event list \<times> error option) outcome \<times> world" where
  "Push es commands w =
     (case Eventstore_writeEvents es commands w of
        (Panic p, w1) \<Rightarrow> (Panic p, w1)
      | (Return (events, err), w1) \<Rightarrow>
          (if isSetupNotExecutedError es err
           then (pushWithoutFunc es commands, emit (PushWithoutFunc commands) w1)
           else (Return (events, err), w1)))"


subsection \<open>Vocabulary of the statements\<close>

text \<open>The calls made between two worlds: what the trace of the later one adds.\<close>

definition new_ops :: "world \<Rightarrow> world \<Rightarrow> op list" where
  "new_ops w w' = drop (length (trace w)) (trace w')"

text \<open>The calls that run the fallback path.\<close>

fun is_fallback :: "op \<Rightarrow> bool" where
  "is_fallback (PushWithoutFunc cs) = True"
| "is_fallback _ = False"

text \<open>The part of the protocol a call belongs to.\<close>

datatype phase = Connection | Probe | Begin | Step | Conclude | Log | Fallback

fun phase_of :: "op \<Rightarrow> phase" where
  "phase_of Conn = Connection"
| "phase_of ConnClose = Connection"
| "phase_of TypeForValue = Probe"
| "phase_of RegisterEventstoreTypes = Probe"
| "phase_of (BeginTx opts) = Begin"
| "phase_of (QueryContext stmt cmds) = Step"
| "phase_of RowsClose = Step"
| "phase_of (HandleUniqueConstraints cs) = Step"
| "phase_of (Exec stmt) = Step"
| "phase_of (HandleFieldCommands cs) = Step"
| "phase_of (Rollback r) = Conclude"
| "phase_of (Commit r) = Conclude"
| "phase_of (LogWarn m e) = Log"
| "phase_of (PushWithoutFunc cs) = Fallback"

text \<open>
  The world right after \<open>BeginTx\<close>, when the connection was acquired and the probe
  returned.
\<close>

definition begun :: "Eventstore \<Rightarrow> world \<Rightarrow> world" where
  "begun es w = emit (BeginTx txOptions) (snd (checkExecutionPlan es (emit Conn w)))"

subsection \<open>Concrete collaborators\<close>

text \<open>
  A backend on which every call succeeds, used to run the functions on concrete
  batches. Its translator builds one placeholder per command, its bulk insert returns
  one row per encoded command, numbered from 1.
\<close>

definition placeholder :: "Command \<Rightarrow> Event" where
  "placeholder c = EventPtr \<lparr>command = c, createdAt = 0, sequence = 0, position = 0\<rparr>"

definition encode :: "Command \<Rightarrow> command" where
  "encode c = Encoded (command_payload c)"

fun number_rows :: "nat \<Rightarrow> command list \<Rightarrow> (error + row) list" where
  "number_rows n [] = []"
| "number_rows n (c # cs) = Inr (100, n, real n) # number_rows (Suc n) cs"

definition es_ok :: Eventstore where
  "es_ok = \<lparr>
     client_Conn = None,
     client_Type = ''postgres'',
     driverConn = StdlibConn,
     registerEventstoreTypes = (\<lambda>known. (None, True)),
     conn_BeginTx = (\<lambda>opts. None),
     commandsToEvents = (\<lambda>cs. Inr (map placeholder cs, map encode cs)),
     push2Stmt = ''SELECT created_at, sequence, position FROM eventstore.push($1)'',
     tx_QueryContext = (\<lambda>stmt cmds. Inr \<lparr>scans = number_rows 1 cmds, rows_err = None\<rparr>),
     handleUniqueConstraints = (\<lambda>cs. None),
     tx_Exec = (\<lambda>stmt. None),
     handleFieldCommands = (\<lambda>cs. None),
     tx_Rollback = None,
     tx_Commit = None,
     isSetupNotExecutedError = (\<lambda>err. err = Some (Error ''setup not executed'')),
     pushWithoutFunc = (\<lambda>cs. Return (map placeholder cs, None))\<rparr>"

definition w_known :: world where
  "w_known = \<lparr>trace = [], type_known = True\<rparr>"

definition w_fresh :: world where
  "w_fresh = \<lparr>trace = [], type_known = False\<rparr>"

definition cmd_a :: Command where
  "cmd_a = Command ''user-1'' ''user.added'' ''{a}''"

definition cmd_b :: Command where
  "cmd_b = Command ''user-1'' ''user.changed'' ''{b}''"

definition es_commit_fails :: Eventstore where
  "es_commit_fails = es_ok\<lparr>tx_Commit := Some (Error ''commit failed'')\<rparr>"

definition es_flat :: Eventstore where
  "es_flat = es_ok\<lparr>tx_QueryContext :=
     (\<lambda>stmt cmds. Inr \<lparr>scans = [Inr (100, 1, 7), Inr (100, 2, 7)], rows_err = None\<rparr>)\<rparr>"

definition es_unique_fails :: Eventstore where
  "es_unique_fails = es_ok\<lparr>handleUniqueConstraints := (\<lambda>cs. Some (Error ''unique constraint violated'')),
     tx_Rollback := Some (Error ''rollback failed'')\<rparr>"

definition es_cockroach :: Eventstore where
  "es_cockroach = es_ok\<lparr>client_Type := ''cockroach''\<rparr>"

definition es_begin_fails :: Eventstore where
  "es_begin_fails = es_ok\<lparr>conn_BeginTx := (\<lambda>opts. Some (Error ''begin failed''))\<rparr>"

definition es_unprovisioned :: Eventstore where
  "es_unprovisioned = es_ok\<lparr>tx_QueryContext := (\<lambda>stmt cmds. Inl (Error ''setup not executed''))\<rparr>"

definition es_foreign :: Eventstore where
  "es_foreign = es_ok\<lparr>commandsToEvents := (\<lambda>cs. Inr (map (\<lambda>c. OtherEvent) cs, map encode cs))\<rparr>"

definition es_silent :: Eventstore where
  "es_silent = es_commit_fails\<lparr>tx_QueryContext :=
     (\<lambda>stmt cmds. Inr \<lparr>scans = [], rows_err = None\<rparr>)\<rparr>"

section \<open>Lemmas\<close>

subsection \<open>The row-scan loop\<close>


lemma trace_emit [simp]: "trace (emit a w) = trace w @ [a]"
  by (simp add: emit_def)

lemma type_known_emit [simp]: "type_known (emit a w) = type_known w"
  by (simp add: emit_def)

lemma scan_rows_step:
  obtains
    (range) "length evs \<le> i"
      "\<And>w. scan_rows i (r # rs) evs w = (Panic (IndexOutOfRange i (length evs)), w)"
  | (other) "i < length evs" "evs ! i = OtherEvent"
      "\<And>w. scan_rows i (r # rs) evs w = (Panic InterfaceConversion, w)"
  | (nilptr) "i < length evs" "evs ! i = NilEventPtr"
      "\<And>w. scan_rows i (r # rs) evs w = (Panic NilPointerDereference, w)"
  | (fail) e err where "i < length evs" "evs ! i = EventPtr e" "r = Inl err"
      "\<And>w. scan_rows i (r # rs) evs w =
         (Return ([], Some err), emit (LogWarn ''failed to scan events'' err) w)"
  | (ok) e c s p where "i < length evs" "evs ! i = EventPtr e" "r = Inr (c, s, p)"
      "\<And>w. scan_rows i (r # rs) evs w =
         scan_rows (Suc i) rs
           (evs[i := EventPtr (e\<lparr>createdAt := c, sequence := s, position := p\<rparr>)]) w"
proof (cases "length evs \<le> i")
  case True
  then show ?thesis using range by simp
next
  case False
  then have len: "i < length evs" by simp
  show ?thesis
  proof (cases "evs ! i")
    case (EventPtr e)
    show ?thesis
    proof (cases r)
      case (Inl err)
      then show ?thesis using fail [OF len EventPtr Inl] False EventPtr by simp
    next
      case (Inr v)
      obtain c s p where v: "v = (c, s, p)" by (cases v) auto
      show ?thesis using ok [of e c s p] len False EventPtr Inr v by simp
    qed
  next
    case NilEventPtr
    then show ?thesis using nilptr len False by simp
  next
    case OtherEvent
    then show ?thesis using other len False by simp
  qed
qed

lemma scan_rows_fst_indep: "fst (scan_rows i rs evs w) = fst (scan_rows i rs evs w')"
proof (induction rs arbitrary: i evs)
  case Nil
  show ?case by simp
next
  case (Cons r rs)
  show ?case
    by (rule scan_rows_step [where evs=evs and i=i and r=r and rs=rs]) (simp_all add: Cons.IH)
qed

lemma scan_rows_snd:
  "snd (scan_rows i rs evs w) =
     (case fst (scan_rows i rs evs w) of
        Return (evs', Some e) \<Rightarrow> emit (LogWarn ''failed to scan events'' e) w
      | _ \<Rightarrow> w)"
proof (induction rs arbitrary: i evs)
  case Nil
  show ?case by simp
next
  case (Cons r rs)
  show ?case
    by (rule scan_rows_step [where evs=evs and i=i and r=r and rs=rs]) (simp_all add: Cons.IH)
qed


lemma scan_rows_inv:
  "scan_rows i rs evs w = (Return (evs', None), w') \<Longrightarrow>
     w' = w \<and> length evs' = length evs \<and> (rs \<noteq> [] \<longrightarrow> i + length rs \<le> length evs) \<and>
     (\<forall>k<length rs. \<exists>c s p e. rs ! k = Inr (c, s, p) \<and> evs ! (i + k) = EventPtr e \<and>
         evs' ! (i + k) = EventPtr (e\<lparr>createdAt := c, sequence := s, position := p\<rparr>)) \<and>
     (\<forall>j. j < i \<or> i + length rs \<le> j \<longrightarrow> evs' ! j = evs ! j)"
proof (induction rs arbitrary: i evs)
  case Nil
  then show ?case by simp
next
  case (Cons r rs)
  show ?case
  proof (rule scan_rows_step [where evs=evs and i=i and r=r and rs=rs])
    fix e c s p
    assume len: "i < length evs" and e: "evs ! i = EventPtr e" and r: "r = Inr (c, s, p)"
      and step: "\<And>w. scan_rows i (r # rs) evs w =
         scan_rows (Suc i) rs
           (evs[i := EventPtr (e\<lparr>createdAt := c, sequence := s, position := p\<rparr>)]) w"
    let ?evs = "evs[i := EventPtr (e\<lparr>createdAt := c, sequence := s, position := p\<rparr>)]"
    have rec: "scan_rows (Suc i) rs ?evs w = (Return (evs', None), w')"
      using Cons.prems step by simp
    note IH = Cons.IH [OF rec]
    from IH have w: "w' = w" and l: "length evs' = length evs" by simp_all
    from IH have bound: "rs \<noteq> [] \<longrightarrow> Suc i + length rs \<le> length evs" by simp
    from IH have pop: "\<forall>k<length rs. \<exists>c s p e. rs ! k = Inr (c, s, p) \<and>
           ?evs ! (Suc i + k) = EventPtr e \<and>
           evs' ! (Suc i + k) = EventPtr (e\<lparr>createdAt := c, sequence := s, position := p\<rparr>)"
      by blast
    from IH have keep: "\<forall>j. j < Suc i \<or> Suc i + length rs \<le> j \<longrightarrow> evs' ! j = ?evs ! j"
      by blast
    have b: "i + length (r # rs) \<le> length evs"
      using bound len by (cases rs) auto
    have p: "\<exists>c s p e. (r # rs) ! k = Inr (c, s, p) \<and> evs ! (i + k) = EventPtr e \<and>
           evs' ! (i + k) = EventPtr (e\<lparr>createdAt := c, sequence := s, position := p\<rparr>)"
      if k: "k < length (r # rs)" for k
    proof (cases k)
      case 0
      have "evs' ! i = ?evs ! i" using keep by simp
      then show ?thesis using 0 e r len by simp
    next
      case (Suc k')
      then have "k' < length rs" using k by simp
      with pop obtain c' s' p' e' where "rs ! k' = Inr (c', s', p')"
        "?evs ! (Suc i + k') = EventPtr e'"
        "evs' ! (Suc i + k') = EventPtr (e'\<lparr>createdAt := c', sequence := s', position := p'\<rparr>)"
        by blast
      then show ?thesis using Suc by simp
    qed
    have kp: "evs' ! j = evs ! j" if "j < i \<or> i + length (r # rs) \<le> j" for j
    proof -
      from that have "j < Suc i \<or> Suc i + length rs \<le> j" by auto
      then have "evs' ! j = ?evs ! j" using keep by blast
      moreover have "j \<noteq> i" using that by auto
      ultimately show ?thesis by simp
    qed
    show ?thesis using w l b p kp by blast
  qed (use Cons.prems in simp_all)
qed

lemma scan_rows_safe:
  "i + length rs \<le> length evs \<Longrightarrow> \<forall>j. i \<le> j \<and> j < i + length rs \<longrightarrow> evs ! j \<noteq> OtherEvent \<Longrightarrow>
     fst (scan_rows i rs evs w) \<noteq> Panic (IndexOutOfRange a b) \<and>
     fst (scan_rows i rs evs w) \<noteq> Panic InterfaceConversion"
proof (induction rs arbitrary: i evs)
  case Nil
  show ?case by simp
next
  case (Cons r rs)
  show ?case
  proof (rule scan_rows_step [where evs=evs and i=i and r=r and rs=rs])
    fix e c s p
    assume len: "i < length evs" and e: "evs ! i = EventPtr e" and r: "r = Inr (c, s, p)"
      and step: "\<And>w. scan_rows i (r # rs) evs w =
         scan_rows (Suc i) rs
           (evs[i := EventPtr (e\<lparr>createdAt := c, sequence := s, position := p\<rparr>)]) w"
    let ?evs = "evs[i := EventPtr (e\<lparr>createdAt := c, sequence := s, position := p\<rparr>)]"
    have 1: "Suc i + length rs \<le> length ?evs" using Cons.prems(1) by simp
    have 2: "\<forall>j. Suc i \<le> j \<and> j < Suc i + length rs \<longrightarrow> ?evs ! j \<noteq> OtherEvent"
      using Cons.prems(2) by simp
    show ?thesis using Cons.IH [OF 1 2] step by simp
  next
    assume "length evs \<le> i"
    then show ?thesis using Cons.prems(1) by simp
  next
    assume "i < length evs" "evs ! i = OtherEvent"
    then show ?thesis using Cons.prems(2) by auto
  qed simp_all
qed

lemma scan_rows_overrun:
  "\<forall>r\<in>set rs. \<exists>v. r = Inr v \<Longrightarrow> \<forall>j. i \<le> j \<and> j < length evs \<longrightarrow> (\<exists>e. evs ! j = EventPtr e) \<Longrightarrow>
     i \<le> length evs \<Longrightarrow> length evs < i + length rs \<Longrightarrow>
     fst (scan_rows i rs evs w) = Panic (IndexOutOfRange (length evs) (length evs))"
proof (induction rs arbitrary: i evs)
  case Nil
  then show ?case by simp
next
  case (Cons r rs)
  show ?case
  proof (rule scan_rows_step [where evs=evs and i=i and r=r and rs=rs])
    fix e c s p
    assume len: "i < length evs" and e: "evs ! i = EventPtr e" and r: "r = Inr (c, s, p)"
      and step: "\<And>w. scan_rows i (r # rs) evs w =
         scan_rows (Suc i) rs
           (evs[i := EventPtr (e\<lparr>createdAt := c, sequence := s, position := p\<rparr>)]) w"
    let ?evs = "evs[i := EventPtr (e\<lparr>createdAt := c, sequence := s, position := p\<rparr>)]"
    have 1: "\<forall>r\<in>set rs. \<exists>v. r = Inr v" using Cons.prems(1) by simp
    have 2: "\<forall>j. Suc i \<le> j \<and> j < length ?evs \<longrightarrow> (\<exists>e. ?evs ! j = EventPtr e)"
      using Cons.prems(2) by simp
    have 3: "Suc i \<le> length ?evs" using len by simp
    have 4: "length ?evs < Suc i + length rs" using Cons.prems(4) by simp
    show ?thesis using Cons.IH [OF 1 2 3 4] step by simp
  next
    assume "length evs \<le> i"
      and "\<And>w. scan_rows i (r # rs) evs w = (Panic (IndexOutOfRange i (length evs)), w)"
    then show ?thesis using Cons.prems(3) by simp
  next
    assume "i < length evs" "evs ! i = OtherEvent"
    then show ?thesis using Cons.prems(2) by auto
  next
    assume "i < length evs" "evs ! i = NilEventPtr"
    then show ?thesis using Cons.prems(2) by auto
  next
    fix err assume "r = Inl err"
    then show ?thesis using Cons.prems(1) by auto
  qed
qed

lemma scan_rows_foreign:
  "\<forall>r\<in>set rs. \<exists>v. r = Inr v \<Longrightarrow> i \<le> k \<Longrightarrow> k < i + length rs \<Longrightarrow> k < length evs \<Longrightarrow>
     evs ! k = OtherEvent \<Longrightarrow> \<forall>j. i \<le> j \<and> j < k \<longrightarrow> (\<exists>e. evs ! j = EventPtr e) \<Longrightarrow>
     fst (scan_rows i rs evs w) = Panic InterfaceConversion"
proof (induction rs arbitrary: i evs)
  case Nil
  then show ?case by simp
next
  case (Cons r rs)
  show ?case
  proof (rule scan_rows_step [where evs=evs and i=i and r=r and rs=rs])
    fix e c s p
    assume len: "i < length evs" and e: "evs ! i = EventPtr e" and r: "r = Inr (c, s, p)"
      and step: "\<And>w. scan_rows i (r # rs) evs w =
         scan_rows (Suc i) rs
           (evs[i := EventPtr (e\<lparr>createdAt := c, sequence := s, position := p\<rparr>)]) w"
    let ?evs = "evs[i := EventPtr (e\<lparr>createdAt := c, sequence := s, position := p\<rparr>)]"
    have ik: "i \<noteq> k" using e Cons.prems(5) by auto
    have 1: "\<forall>r\<in>set rs. \<exists>v. r = Inr v" using Cons.prems(1) by simp
    have 2: "Suc i \<le> k" using ik Cons.prems(2) by simp
    have 3: "k < Suc i + length rs" using Cons.prems(3) by simp
    have 4: "k < length ?evs" using Cons.prems(4) by simp
    have 5: "?evs ! k = OtherEvent" using Cons.prems(5) ik by simp
    have 6: "\<forall>j. Suc i \<le> j \<and> j < k \<longrightarrow> (\<exists>e. ?evs ! j = EventPtr e)"
      using Cons.prems(6) by simp
    show ?thesis using Cons.IH [OF 1 2 3 4 5 6] step by simp
  next
    assume "length evs \<le> i"
    then show ?thesis using Cons.prems(2,4) by simp
  next
    assume "i < length evs" "evs ! i = OtherEvent"
      and "\<And>w. scan_rows i (r # rs) evs w = (Panic InterfaceConversion, w)"
    then show ?thesis by simp
  next
    assume a: "i < length evs" "evs ! i = NilEventPtr"
    have "i = k \<or> i < k" using Cons.prems(2) by auto
    then show ?thesis using a Cons.prems(5,6) by auto
  next
    fix err assume "r = Inl err"
    then show ?thesis using Cons.prems(1) by auto
  qed
qed

subsection \<open>The probe and the insert step\<close>


lemma new_ops_append: "trace w' = trace w @ ops \<Longrightarrow> new_ops w w' = ops"
  by (simp add: new_ops_def)

lemma checkExecutionPlan_known:
  "driverConn es = StdlibConn \<Longrightarrow> type_known w \<Longrightarrow>
     checkExecutionPlan es w = (Return None, emit TypeForValue w)"
  by (simp add: checkExecutionPlan_def)

lemma checkExecutionPlan_unknown:
  "driverConn es = StdlibConn \<Longrightarrow> \<not> type_known w \<Longrightarrow>
     checkExecutionPlan es w =
       (Return (fst (registerEventstoreTypes es False)),
        (emit RegisterEventstoreTypes (emit TypeForValue w))
          \<lparr>type_known := snd (registerEventstoreTypes es False)\<rparr>)"
  by (simp add: checkExecutionPlan_def split: prod.splits)

lemma checkExecutionPlan_foreign:
  "driverConn es = ForeignConn \<Longrightarrow> checkExecutionPlan es w = (Panic InterfaceConversion, w)"
  by (simp add: checkExecutionPlan_def)

lemma checkExecutionPlan_fst_emit:
  "fst (checkExecutionPlan es (emit a w)) = fst (checkExecutionPlan es w)"
  by (cases "driverConn es"; cases "type_known w")
     (simp_all add: checkExecutionPlan_known checkExecutionPlan_unknown checkExecutionPlan_foreign)

lemma checkExecutionPlan_return:
  assumes "fst (checkExecutionPlan es w) = Return r"
  shows "trace (snd (checkExecutionPlan es w)) =
           trace w @ TypeForValue # (if type_known w then [] else [RegisterEventstoreTypes])"
    and "type_known w \<Longrightarrow> type_known (snd (checkExecutionPlan es w)) \<and> r = None"
    and "driverConn es = StdlibConn"
  using assms
  by (cases "driverConn es"; cases "type_known w";
      simp add: checkExecutionPlan_known checkExecutionPlan_unknown checkExecutionPlan_foreign)+

lemma checkExecutionPlan_panic:
  assumes "fst (checkExecutionPlan es w) = Panic p"
  shows "snd (checkExecutionPlan es w) = w"
  using assms
  by (cases "driverConn es"; cases "type_known w";
      simp add: checkExecutionPlan_known checkExecutionPlan_unknown checkExecutionPlan_foreign)


lemma writeEvents_translate_fails:
  "commandsToEvents es cs = Inl err \<Longrightarrow> writeEvents es cs w = (Return ([], Some err), w)"
  by (simp add: writeEvents_def)

lemma writeEvents_query_fails:
  "commandsToEvents es cs = Inr (evs, cmds) \<Longrightarrow> tx_QueryContext es (push2Stmt es) cmds = Inl err \<Longrightarrow>
     writeEvents es cs w = (Return ([], Some err), emit (QueryContext (push2Stmt es) cmds) w)"
  by (simp add: writeEvents_def)

lemma writeEvents_scanned:
  assumes t: "commandsToEvents es cs = Inr (evs, cmds)"
    and q: "tx_QueryContext es (push2Stmt es) cmds = Inr rows"
  shows "writeEvents es cs w =
     (case fst (scan_rows 0 (scans rows) evs w) of
        Panic p \<Rightarrow> (Panic p, emit RowsClose (emit (QueryContext (push2Stmt es) cmds) w))
      | Return (evs', Some err) \<Rightarrow>
          (Return ([], Some err),
           emit RowsClose (emit (LogWarn ''failed to scan events'' err)
             (emit (QueryContext (push2Stmt es) cmds) w)))
      | Return (evs', None) \<Rightarrow>
          (case rows_err rows of
             Some err \<Rightarrow> (Return ([], Some err),
                          emit RowsClose (emit (QueryContext (push2Stmt es) cmds) w))
           | None \<Rightarrow> (Return (evs', None),
                      emit RowsClose (emit (QueryContext (push2Stmt es) cmds) w))))"
proof -
  let ?w1 = "emit (QueryContext (push2Stmt es) cmds) w"
  obtain r w2 where sr: "scan_rows 0 (scans rows) evs ?w1 = (r, w2)"
    by (cases "scan_rows 0 (scans rows) evs ?w1") auto
  have r: "fst (scan_rows 0 (scans rows) evs w) = r"
    using sr scan_rows_fst_indep [of 0 "scans rows" evs w ?w1] by simp
  have w2: "w2 = (case r of
        Return (evs', Some e) \<Rightarrow> emit (LogWarn ''failed to scan events'' e) ?w1
      | _ \<Rightarrow> ?w1)"
    using sr scan_rows_snd [of 0 "scans rows" evs ?w1] by simp
  have unf: "writeEvents es cs w =
     (case (r, w2) of
        (Panic p, w2) \<Rightarrow> (Panic p, emit RowsClose w2)
      | (Return (events', Some err), w2) \<Rightarrow> (Return ([], Some err), emit RowsClose w2)
      | (Return (events', None), w2) \<Rightarrow>
          (case rows_err rows of
             Some err \<Rightarrow> (Return ([], Some err), emit RowsClose w2)
           | None \<Rightarrow> (Return (events', None), emit RowsClose w2)))"
    using t q sr by (simp add: writeEvents_def Let_def)
  show ?thesis
  proof (cases r)
    case (Panic p)
    then show ?thesis using unf r w2 by simp
  next
    case (Return res)
    obtain evs' err where res: "res = (evs', err)" by (cases res) auto
    show ?thesis
    proof (cases err)
      case None
      then show ?thesis using unf r w2 Return res by (simp split: option.splits)
    next
      case (Some e)
      then show ?thesis using unf r w2 Return res by simp
    qed
  qed
qed


lemma writeEvents_cases:
  obtains
    (translate) err where "commandsToEvents es cs = Inl err"
      "\<And>w. writeEvents es cs w = (Return ([], Some err), w)"
  | (query) evs cmds err where "commandsToEvents es cs = Inr (evs, cmds)"
      "tx_QueryContext es (push2Stmt es) cmds = Inl err"
      "\<And>w. writeEvents es cs w = (Return ([], Some err), emit (QueryContext (push2Stmt es) cmds) w)"
  | (panic) evs cmds rows p where "commandsToEvents es cs = Inr (evs, cmds)"
      "tx_QueryContext es (push2Stmt es) cmds = Inr rows"
      "\<And>w. fst (scan_rows 0 (scans rows) evs w) = Panic p"
      "\<And>w. writeEvents es cs w =
         (Panic p, emit RowsClose (emit (QueryContext (push2Stmt es) cmds) w))"
  | (scan) evs cmds rows evs' err where "commandsToEvents es cs = Inr (evs, cmds)"
      "tx_QueryContext es (push2Stmt es) cmds = Inr rows"
      "\<And>w. fst (scan_rows 0 (scans rows) evs w) = Return (evs', Some err)"
      "\<And>w. writeEvents es cs w =
         (Return ([], Some err),
          emit RowsClose (emit (LogWarn ''failed to scan events'' err)
            (emit (QueryContext (push2Stmt es) cmds) w)))"
  | (rowserr) evs cmds rows evs' err where "commandsToEvents es cs = Inr (evs, cmds)"
      "tx_QueryContext es (push2Stmt es) cmds = Inr rows"
      "\<And>w. fst (scan_rows 0 (scans rows) evs w) = Return (evs', None)"
      "rows_err rows = Some err"
      "\<And>w. writeEvents es cs w =
         (Return ([], Some err), emit RowsClose (emit (QueryContext (push2Stmt es) cmds) w))"
  | (ok) evs cmds rows evs' where "commandsToEvents es cs = Inr (evs, cmds)"
      "tx_QueryContext es (push2Stmt es) cmds = Inr rows"
      "\<And>w. fst (scan_rows 0 (scans rows) evs w) = Return (evs', None)"
      "rows_err rows = None"
      "\<And>w. writeEvents es cs w =
         (Return (evs', None), emit RowsClose (emit (QueryContext (push2Stmt es) cmds) w))"
proof (cases "commandsToEvents es cs")
  case (Inl err)
  then show ?thesis using translate writeEvents_translate_fails by blast
next
  case (Inr pr)
  obtain evs cmds where pr: "pr = (evs, cmds)" by (cases pr) auto
  note t = Inr [unfolded pr]
  show ?thesis
  proof (cases "tx_QueryContext es (push2Stmt es) cmds")
    case (Inl err)
    then show ?thesis using query [OF t Inl] writeEvents_query_fails [OF t Inl] by blast
  next
    case (Inr rows)
    note q = Inr
    note unf = writeEvents_scanned [OF t q]
    have indep: "fst (scan_rows 0 (scans rows) evs w) = fst (scan_rows 0 (scans rows) evs w')"
      for w w' by (rule scan_rows_fst_indep)
    show ?thesis
    proof (cases "fst (scan_rows 0 (scans rows) evs undefined)")
      case (Panic p)
      have a: "fst (scan_rows 0 (scans rows) evs w) = Panic p" for w
        using Panic indep [of w undefined] by simp
      show ?thesis
        by (rule panic [OF t q a]) (simp add: unf a)
    next
      case (Return res)
      obtain evs' err where res: "res = (evs', err)" by (cases res) auto
      have a: "fst (scan_rows 0 (scans rows) evs w) = Return (evs', err)" for w
        using Return res indep [of w undefined] by simp
      show ?thesis
      proof (cases err)
        case (Some e)
        show ?thesis
          by (rule scan [OF t q a [unfolded Some]]) (simp add: unf a Some)
      next
        case None
        show ?thesis
        proof (cases "rows_err rows")
          case (Some e)
          show ?thesis
            by (rule rowserr [OF t q a [unfolded None] Some]) (simp add: unf a None Some)
        next
          case None': None
          show ?thesis
            by (rule ok [OF t q a [unfolded None] None']) (simp add: unf a None None')
        qed
      qed
    qed
  qed
qed

lemma writeEvents_fst_indep: "fst (writeEvents es cs w) = fst (writeEvents es cs w')"
  by (rule writeEvents_cases [of es cs]) simp_all

lemma writeEvents_type_known: "type_known (snd (writeEvents es cs w)) = type_known w"
  by (rule writeEvents_cases [of es cs]) simp_all

lemma writeEvents_trace:
  "\<exists>ops. trace (snd (writeEvents es cs w)) = trace w @ ops \<and>
         (\<forall>x\<in>set ops. phase_of x = Step \<or> phase_of x = Log)"
  by (rule writeEvents_cases [of es cs]) simp_all


subsection \<open>The steps inside the transaction\<close>

lemma tx_steps_insert_panics:
  "fst (writeEvents es cs w) = Panic p \<Longrightarrow>
     tx_steps es cs w = (Panic p, snd (writeEvents es cs w))"
  by (cases "writeEvents es cs w") (simp add: tx_steps_def)

lemma tx_steps_insert_fails:
  "fst (writeEvents es cs w) = Return (evs, Some e) \<Longrightarrow>
     tx_steps es cs w = (Return ([], Some e), snd (writeEvents es cs w))"
  by (cases "writeEvents es cs w") (simp add: tx_steps_def)

lemma tx_steps_unique_fails:
  "fst (writeEvents es cs w) = Return (evs, None) \<Longrightarrow> handleUniqueConstraints es cs = Some e \<Longrightarrow>
     tx_steps es cs w =
       (Return ([], Some e), emit (HandleUniqueConstraints cs) (snd (writeEvents es cs w)))"
  by (cases "writeEvents es cs w") (simp add: tx_steps_def Let_def)

lemma tx_steps_exec_fails:
  "fst (writeEvents es cs w) = Return (evs, None) \<Longrightarrow> handleUniqueConstraints es cs = None \<Longrightarrow>
     client_Type es = ''cockroach'' \<Longrightarrow> tx_Exec es enable_multiple_modifications = Some e \<Longrightarrow>
     tx_steps es cs w =
       (Return ([], Some e),
        emit (Exec enable_multiple_modifications)
          (emit (HandleUniqueConstraints cs) (snd (writeEvents es cs w))))"
  by (cases "writeEvents es cs w") (simp add: tx_steps_def Let_def)

lemma tx_steps_exec_ok:
  "fst (writeEvents es cs w) = Return (evs, None) \<Longrightarrow> handleUniqueConstraints es cs = None \<Longrightarrow>
     client_Type es = ''cockroach'' \<Longrightarrow> tx_Exec es enable_multiple_modifications = None \<Longrightarrow>
     tx_steps es cs w =
       (Return (case handleFieldCommands es cs of Some e \<Rightarrow> ([], Some e) | None \<Rightarrow> (evs, None)),
        emit (HandleFieldCommands cs)
          (emit (Exec enable_multiple_modifications)
            (emit (HandleUniqueConstraints cs) (snd (writeEvents es cs w)))))"
  by (cases "writeEvents es cs w") (simp add: tx_steps_def Let_def split: option.splits)

lemma tx_steps_no_exec:
  "fst (writeEvents es cs w) = Return (evs, None) \<Longrightarrow> handleUniqueConstraints es cs = None \<Longrightarrow>
     client_Type es \<noteq> ''cockroach'' \<Longrightarrow>
     tx_steps es cs w =
       (Return (case handleFieldCommands es cs of Some e \<Rightarrow> ([], Some e) | None \<Rightarrow> (evs, None)),
        emit (HandleFieldCommands cs)
          (emit (HandleUniqueConstraints cs) (snd (writeEvents es cs w))))"
  by (cases "writeEvents es cs w") (simp add: tx_steps_def Let_def split: option.splits)

lemma tx_steps_cases:
  obtains
    (panic) p where "fst (writeEvents es cs w) = Panic p"
      "tx_steps es cs w = (Panic p, snd (writeEvents es cs w))"
  | (insert) evs e where "fst (writeEvents es cs w) = Return (evs, Some e)"
      "tx_steps es cs w = (Return ([], Some e), snd (writeEvents es cs w))"
  | (unique) evs e where "fst (writeEvents es cs w) = Return (evs, None)"
      "handleUniqueConstraints es cs = Some e"
      "tx_steps es cs w =
         (Return ([], Some e), emit (HandleUniqueConstraints cs) (snd (writeEvents es cs w)))"
  | (exec) evs e where "fst (writeEvents es cs w) = Return (evs, None)"
      "handleUniqueConstraints es cs = None" "client_Type es = ''cockroach''"
      "tx_Exec es enable_multiple_modifications = Some e"
      "tx_steps es cs w =
         (Return ([], Some e),
          emit (Exec enable_multiple_modifications)
            (emit (HandleUniqueConstraints cs) (snd (writeEvents es cs w))))"
  | (field_cockroach) evs where "fst (writeEvents es cs w) = Return (evs, None)"
      "handleUniqueConstraints es cs = None" "client_Type es = ''cockroach''"
      "tx_Exec es enable_multiple_modifications = None"
      "tx_steps es cs w =
         (Return (case handleFieldCommands es cs of Some e \<Rightarrow> ([], Some e) | None \<Rightarrow> (evs, None)),
          emit (HandleFieldCommands cs)
            (emit (Exec enable_multiple_modifications)
              (emit (HandleUniqueConstraints cs) (snd (writeEvents es cs w)))))"
  | (field_other) evs where "fst (writeEvents es cs w) = Return (evs, None)"
      "handleUniqueConstraints es cs = None" "client_Type es \<noteq> ''cockroach''"
      "tx_steps es cs w =
         (Return (case handleFieldCommands es cs of Some e \<Rightarrow> ([], Some e) | None \<Rightarrow> (evs, None)),
          emit (HandleFieldCommands cs)
            (emit (HandleUniqueConstraints cs) (snd (writeEvents es cs w))))"
proof (cases "fst (writeEvents es cs w)")
  case (Panic p)
  then show ?thesis using panic tx_steps_insert_panics by blast
next
  case (Return res)
  obtain evs err where res: "res = (evs, err)" by (cases res) auto
  note r = Return [unfolded res]
  show ?thesis
  proof (cases err)
    case (Some e)
    then show ?thesis using r insert tx_steps_insert_fails by blast
  next
    case None
    note ins = r [unfolded None]
    show ?thesis
    proof (cases "handleUniqueConstraints es cs")
      case (Some e)
      then show ?thesis using unique [OF ins Some] tx_steps_unique_fails [OF ins Some] by blast
    next
      case None
      note u = None
      show ?thesis
      proof (cases "client_Type es = ''cockroach''")
        case False
        then show ?thesis
          using field_other [OF ins u False] tx_steps_no_exec [OF ins u False] by blast
      next
        case True
        show ?thesis
        proof (cases "tx_Exec es enable_multiple_modifications")
          case (Some e)
          then show ?thesis
            using exec [OF ins u True Some] tx_steps_exec_fails [OF ins u True Some] by blast
        next
          case None
          then show ?thesis
            using field_cockroach [OF ins u True None] tx_steps_exec_ok [OF ins u True None]
            by blast
        qed
      qed
    qed
  qed
qed

lemma tx_steps_fst_indep: "fst (tx_steps es cs w) = fst (tx_steps es cs w')"
proof (rule tx_steps_cases [of es cs w])
  fix p assume a: "fst (writeEvents es cs w) = Panic p"
    and b: "tx_steps es cs w = (Panic p, snd (writeEvents es cs w))"
  have "fst (writeEvents es cs w') = Panic p" using a writeEvents_fst_indep [of es cs w' w] by simp
  then show ?thesis using b tx_steps_insert_panics by simp
next
  fix evs e assume a: "fst (writeEvents es cs w) = Return (evs, Some e)"
    and b: "tx_steps es cs w = (Return ([], Some e), snd (writeEvents es cs w))"
  have "fst (writeEvents es cs w') = Return (evs, Some e)"
    using a writeEvents_fst_indep [of es cs w' w] by simp
  then show ?thesis using b tx_steps_insert_fails by simp
next
  fix evs e assume a: "fst (writeEvents es cs w) = Return (evs, None)"
    and u: "handleUniqueConstraints es cs = Some e"
    and b: "tx_steps es cs w =
         (Return ([], Some e), emit (HandleUniqueConstraints cs) (snd (writeEvents es cs w)))"
  have "fst (writeEvents es cs w') = Return (evs, None)"
    using a writeEvents_fst_indep [of es cs w' w] by simp
  then show ?thesis using b tx_steps_unique_fails [OF _ u] by simp
next
  fix evs e assume a: "fst (writeEvents es cs w) = Return (evs, None)"
    and u: "handleUniqueConstraints es cs = None" and c: "client_Type es = ''cockroach''"
    and x: "tx_Exec es enable_multiple_modifications = Some e"
    and b: "tx_steps es cs w =
         (Return ([], Some e),
          emit (Exec enable_multiple_modifications)
            (emit (HandleUniqueConstraints cs) (snd (writeEvents es cs w))))"
  have "fst (writeEvents es cs w') = Return (evs, None)"
    using a writeEvents_fst_indep [of es cs w' w] by simp
  then show ?thesis using b tx_steps_exec_fails [OF _ u c x] by simp
next
  fix evs assume a: "fst (writeEvents es cs w) = Return (evs, None)"
    and u: "handleUniqueConstraints es cs = None" and c: "client_Type es = ''cockroach''"
    and x: "tx_Exec es enable_multiple_modifications = None"
    and b: "tx_steps es cs w =
         (Return (case handleFieldCommands es cs of Some e \<Rightarrow> ([], Some e) | None \<Rightarrow> (evs, None)),
          emit (HandleFieldCommands cs)
            (emit (Exec enable_multiple_modifications)
              (emit (HandleUniqueConstraints cs) (snd (writeEvents es cs w)))))"
  have "fst (writeEvents es cs w') = Return (evs, None)"
    using a writeEvents_fst_indep [of es cs w' w] by simp
  then show ?thesis using b tx_steps_exec_ok [OF _ u c x] by simp
next
  fix evs assume a: "fst (writeEvents es cs w) = Return (evs, None)"
    and u: "handleUniqueConstraints es cs = None" and c: "client_Type es \<noteq> ''cockroach''"
    and b: "tx_steps es cs w =
         (Return (case handleFieldCommands es cs of Some e \<Rightarrow> ([], Some e) | None \<Rightarrow> (evs, None)),
          emit (HandleFieldCommands cs)
            (emit (HandleUniqueConstraints cs) (snd (writeEvents es cs w))))"
  have "fst (writeEvents es cs w') = Return (evs, None)"
    using a writeEvents_fst_indep [of es cs w' w] by simp
  then show ?thesis using b tx_steps_no_exec [OF _ u c] by simp
qed

lemma tx_steps_type_known: "type_known (snd (tx_steps es cs w)) = type_known w"
  by (rule tx_steps_cases [of es cs w]) (simp_all add: writeEvents_type_known)

lemma tx_steps_trace:
  "\<exists>ops. trace (snd (tx_steps es cs w)) = trace w @ ops \<and>
         (\<forall>x\<in>set ops. phase_of x = Step \<or> phase_of x = Log) \<and>
         (\<forall>stmt. Exec stmt \<in> set ops \<longrightarrow>
            client_Type es = ''cockroach'' \<and> stmt = enable_multiple_modifications)"
proof -
  obtain ops where t: "trace (snd (writeEvents es cs w)) = trace w @ ops"
    and p: "\<forall>x\<in>set ops. phase_of x = Step \<or> phase_of x = Log"
    and x: "\<forall>stmt. Exec stmt \<notin> set ops"
    by (rule writeEvents_cases [of es cs]) simp_all
  show ?thesis
    by (rule tx_steps_cases [of es cs w]) (use t p x in simp_all)
qed


subsection \<open>The deferred function and the method\<close>

lemma deferred_tx_rollback:
  "deferred_tx es (Some e) w = (Some e, emit (Rollback (tx_Rollback es)) w)"
  by (simp add: deferred_tx_def)

lemma deferred_tx_commit:
  "tx_Commit es = None \<Longrightarrow> deferred_tx es None w = (None, emit (Commit None) w)"
  by (simp add: deferred_tx_def)

lemma deferred_tx_commit_fails:
  "tx_Commit es = Some ce \<Longrightarrow>
     deferred_tx es None w =
       (Some ce, emit (LogWarn ''failed to commit transaction'' ce) (emit (Commit (Some ce)) w))"
  by (simp add: deferred_tx_def)

lemma deferred_tx_type_known: "type_known (snd (deferred_tx es err w)) = type_known w"
  by (cases err; cases "tx_Commit es")
     (simp_all add: deferred_tx_rollback deferred_tx_commit deferred_tx_commit_fails)

lemma deferred_tx_trace:
  "\<exists>ops. trace (snd (deferred_tx es err w)) = trace w @ ops \<and>
         (\<forall>x\<in>set ops. phase_of x = Conclude \<or> phase_of x = Log)"
  by (cases err; cases "tx_Commit es")
     (simp_all add: deferred_tx_rollback deferred_tx_commit deferred_tx_commit_fails)

lemma begun_trace:
  "fst (checkExecutionPlan es w) = Return r \<Longrightarrow>
     trace (begun es w) =
       trace w @ [Conn, TypeForValue] @ (if type_known w then [] else [RegisterEventstoreTypes])
         @ [BeginTx txOptions]"
  using checkExecutionPlan_return(1) [of es "emit Conn w" r]
  by (simp add: begun_def checkExecutionPlan_fst_emit)

lemma begun_type_known:
  "fst (checkExecutionPlan es w) = Return r \<Longrightarrow> type_known w \<Longrightarrow> type_known (begun es w)"
  using checkExecutionPlan_return(2) [of es "emit Conn w" r]
  by (simp add: begun_def checkExecutionPlan_fst_emit)

lemma E_conn_fails:
  "client_Conn es = Some e \<Longrightarrow>
     Eventstore_writeEvents es cs w = (Return ([], Some e), emit Conn w)"
  by (simp add: Eventstore_writeEvents_def Let_def)

lemma E_probe_panics:
  assumes "client_Conn es = None" "fst (checkExecutionPlan es w) = Panic p"
  shows "Eventstore_writeEvents es cs w = (Panic p, emit ConnClose (emit Conn w))"
proof -
  have f: "fst (checkExecutionPlan es (emit Conn w)) = Panic p"
    using assms(2) by (simp add: checkExecutionPlan_fst_emit)
  then have "checkExecutionPlan es (emit Conn w) = (Panic p, emit Conn w)"
    using checkExecutionPlan_panic [OF f] by (cases "checkExecutionPlan es (emit Conn w)") simp
  then show ?thesis using assms(1) by (simp add: Eventstore_writeEvents_def Let_def)
qed

lemma E_probe_fails:
  assumes "client_Conn es = None" "fst (checkExecutionPlan es w) = Return (Some e)"
  shows "Eventstore_writeEvents es cs w =
           (Return ([], Some e), emit ConnClose (snd (checkExecutionPlan es (emit Conn w))))"
proof -
  have f: "fst (checkExecutionPlan es (emit Conn w)) = Return (Some e)"
    using assms(2) by (simp add: checkExecutionPlan_fst_emit)
  then show ?thesis using assms(1)
    by (cases "checkExecutionPlan es (emit Conn w)")
       (simp add: Eventstore_writeEvents_def Let_def)
qed

lemma E_begin_fails:
  assumes "client_Conn es = None" "fst (checkExecutionPlan es w) = Return None"
    "conn_BeginTx es txOptions = Some e"
  shows "Eventstore_writeEvents es cs w = (Return ([], Some e), emit ConnClose (begun es w))"
proof -
  have f: "fst (checkExecutionPlan es (emit Conn w)) = Return None"
    using assms(2) by (simp add: checkExecutionPlan_fst_emit)
  then show ?thesis using assms(1,3)
    by (cases "checkExecutionPlan es (emit Conn w)")
       (simp add: Eventstore_writeEvents_def Let_def begun_def)
qed

lemma E_steps_panic:
  assumes "client_Conn es = None" "fst (checkExecutionPlan es w) = Return None"
    "conn_BeginTx es txOptions = None" "fst (tx_steps es cs w) = Panic p"
  shows "Eventstore_writeEvents es cs w =
           (Panic p, emit ConnClose (snd (deferred_tx es None (snd (tx_steps es cs (begun es w))))))"
proof -
  have f: "fst (checkExecutionPlan es (emit Conn w)) = Return None"
    using assms(2) by (simp add: checkExecutionPlan_fst_emit)
  have g: "fst (tx_steps es cs (begun es w)) = Panic p"
    using assms(4) tx_steps_fst_indep [of es cs "begun es w" w] by simp
  show ?thesis using assms(1,3) f g
    by (cases "checkExecutionPlan es (emit Conn w)"; cases "tx_steps es cs (begun es w)")
       (simp add: Eventstore_writeEvents_def Let_def begun_def)
qed

lemma E_steps_return:
  assumes "client_Conn es = None" "fst (checkExecutionPlan es w) = Return None"
    "conn_BeginTx es txOptions = None" "fst (tx_steps es cs w) = Return (evs, err)"
  shows "Eventstore_writeEvents es cs w =
           (Return (evs, fst (deferred_tx es err (snd (tx_steps es cs (begun es w))))),
            emit ConnClose (snd (deferred_tx es err (snd (tx_steps es cs (begun es w))))))"
proof -
  have f: "fst (checkExecutionPlan es (emit Conn w)) = Return None"
    using assms(2) by (simp add: checkExecutionPlan_fst_emit)
  have g: "fst (tx_steps es cs (begun es w)) = Return (evs, err)"
    using assms(4) tx_steps_fst_indep [of es cs "begun es w" w] by simp
  show ?thesis using assms(1,3) f g
    by (cases "checkExecutionPlan es (emit Conn w)"; cases "tx_steps es cs (begun es w)")
       (simp add: Eventstore_writeEvents_def Let_def begun_def)
qed


lemma E_cases:
  obtains
    (conn) e where "client_Conn es = Some e"
      "Eventstore_writeEvents es cs w = (Return ([], Some e), emit Conn w)"
  | (probe_panic) p where "client_Conn es = None" "fst (checkExecutionPlan es w) = Panic p"
      "Eventstore_writeEvents es cs w = (Panic p, emit ConnClose (emit Conn w))"
  | (probe) e where "client_Conn es = None" "fst (checkExecutionPlan es w) = Return (Some e)"
      "Eventstore_writeEvents es cs w =
         (Return ([], Some e), emit ConnClose (snd (checkExecutionPlan es (emit Conn w))))"
  | (begin_fails) e where "client_Conn es = None" "fst (checkExecutionPlan es w) = Return None"
      "conn_BeginTx es txOptions = Some e"
      "Eventstore_writeEvents es cs w = (Return ([], Some e), emit ConnClose (begun es w))"
  | (panic) p where "client_Conn es = None" "fst (checkExecutionPlan es w) = Return None"
      "conn_BeginTx es txOptions = None" "fst (tx_steps es cs w) = Panic p"
      "Eventstore_writeEvents es cs w =
         (Panic p, emit ConnClose (snd (deferred_tx es None (snd (tx_steps es cs (begun es w))))))"
  | (return) evs err where "client_Conn es = None" "fst (checkExecutionPlan es w) = Return None"
      "conn_BeginTx es txOptions = None" "fst (tx_steps es cs w) = Return (evs, err)"
      "Eventstore_writeEvents es cs w =
         (Return (evs, fst (deferred_tx es err (snd (tx_steps es cs (begun es w))))),
          emit ConnClose (snd (deferred_tx es err (snd (tx_steps es cs (begun es w))))))"
proof (cases "client_Conn es")
  case (Some e)
  then show ?thesis using conn E_conn_fails by blast
next
  case None
  note c = None
  show ?thesis
  proof (cases "fst (checkExecutionPlan es w)")
    case (Panic p)
    then show ?thesis using probe_panic [OF c Panic] E_probe_panics [OF c Panic] by blast
  next
    case (Return r)
    show ?thesis
    proof (cases r)
      case (Some e)
      note pr = Return [unfolded Some]
      show ?thesis using probe [OF c pr] E_probe_fails [OF c pr] by blast
    next
      case None
      note pr = Return [unfolded None]
      show ?thesis
      proof (cases "conn_BeginTx es txOptions")
        case (Some e)
        then show ?thesis using begin_fails [OF c pr Some] E_begin_fails [OF c pr Some] by blast
      next
        case None
        note b = None
        show ?thesis
        proof (cases "fst (tx_steps es cs w)")
          case (Panic p)
          then show ?thesis using panic [OF c pr b Panic] E_steps_panic [OF c pr b Panic] by blast
        next
          case (Return res)
          obtain evs err where res: "res = (evs, err)" by (cases res) auto
          note st = Return [unfolded res]
          show ?thesis using return [OF c pr b st] E_steps_return [OF c pr b st] by blast
        qed
      qed
    qed
  qed
qed

lemma E_opened_trace:
  assumes "client_Conn es = None" "fst (checkExecutionPlan es w) = Return None"
    "conn_BeginTx es txOptions = None"
  shows "\<exists>steps fin.
     trace (snd (Eventstore_writeEvents es cs w)) =
       trace w @ [Conn, TypeForValue] @ (if type_known w then [] else [RegisterEventstoreTypes])
         @ [BeginTx txOptions] @ steps @ fin @ [ConnClose] \<and>
     trace (snd (tx_steps es cs (begun es w))) = trace (begun es w) @ steps \<and>
     trace (snd (deferred_tx es
         (case fst (tx_steps es cs w) of Panic p \<Rightarrow> None | Return (evs, err) \<Rightarrow> err)
         (snd (tx_steps es cs (begun es w))))) =
       trace (snd (tx_steps es cs (begun es w))) @ fin \<and>
     (\<forall>x\<in>set steps. phase_of x = Step \<or> phase_of x = Log) \<and>
     (\<forall>stmt. Exec stmt \<in> set steps \<longrightarrow>
        client_Type es = ''cockroach'' \<and> stmt = enable_multiple_modifications) \<and>
     (\<forall>x\<in>set fin. phase_of x = Conclude \<or> phase_of x = Log)"
proof -
  let ?err = "case fst (tx_steps es cs w) of Panic p \<Rightarrow> None | Return (evs, err) \<Rightarrow> err"
  let ?w3 = "snd (tx_steps es cs (begun es w))"
  obtain steps where s: "trace ?w3 = trace (begun es w) @ steps"
    and sp: "\<forall>x\<in>set steps. phase_of x = Step \<or> phase_of x = Log"
    and sx: "\<forall>stmt. Exec stmt \<in> set steps \<longrightarrow>
        client_Type es = ''cockroach'' \<and> stmt = enable_multiple_modifications"
    using tx_steps_trace [of es cs "begun es w"] by blast
  obtain fin where f: "trace (snd (deferred_tx es ?err ?w3)) = trace ?w3 @ fin"
    and fp: "\<forall>x\<in>set fin. phase_of x = Conclude \<or> phase_of x = Log"
    using deferred_tx_trace [of es ?err ?w3] by blast
  have E: "snd (Eventstore_writeEvents es cs w) = emit ConnClose (snd (deferred_tx es ?err ?w3))"
  proof (cases "fst (tx_steps es cs w)")
    case (Panic p)
    then show ?thesis using E_steps_panic [OF assms Panic] by simp
  next
    case (Return res)
    obtain evs err where res: "res = (evs, err)" by (cases res) auto
    show ?thesis using E_steps_return [OF assms Return [unfolded res]] Return res by simp
  qed
  have "trace (snd (Eventstore_writeEvents es cs w)) =
       trace w @ [Conn, TypeForValue] @ (if type_known w then [] else [RegisterEventstoreTypes])
         @ [BeginTx txOptions] @ steps @ fin @ [ConnClose]"
    using E f s begun_trace [OF assms(2)] by simp
  then show ?thesis using s f sp sx fp by blast
qed


lemma E_trace:
  "\<exists>ops. trace (snd (Eventstore_writeEvents es cs w)) = trace w @ ops \<and>
     (\<forall>x\<in>set ops. phase_of x \<noteq> Fallback) \<and>
     (\<forall>stmt. Exec stmt \<in> set ops \<longrightarrow>
        client_Type es = ''cockroach'' \<and> stmt = enable_multiple_modifications) \<and>
     (type_known w \<longrightarrow> RegisterEventstoreTypes \<notin> set ops \<and>
        type_known (snd (Eventstore_writeEvents es cs w))) \<and>
     (\<forall>opts. BeginTx opts \<in> set ops \<longrightarrow>
        (\<exists>post. ops = [Conn, TypeForValue]
            @ (if type_known w then [] else [RegisterEventstoreTypes])
            @ BeginTx txOptions # post \<and>
          (\<forall>x\<in>set post. phase_of x \<noteq> Probe \<and> phase_of x \<noteq> Begin)))"
proof (rule E_cases [of es cs w])
  fix e assume "client_Conn es = Some e"
    and E: "Eventstore_writeEvents es cs w = (Return ([], Some e), emit Conn w)"
  show ?thesis
    by (rule exI [of _ "[Conn]"]) (simp add: E)
next
  fix p assume "fst (checkExecutionPlan es w) = Panic p"
    and E: "Eventstore_writeEvents es cs w = (Panic p, emit ConnClose (emit Conn w))"
  show ?thesis
    by (rule exI [of _ "[Conn, ConnClose]"]) (simp add: E)
next
  fix e assume pr: "fst (checkExecutionPlan es w) = Return (Some e)"
    and E: "Eventstore_writeEvents es cs w =
         (Return ([], Some e), emit ConnClose (snd (checkExecutionPlan es (emit Conn w))))"
  have pr': "fst (checkExecutionPlan es (emit Conn w)) = Return (Some e)"
    using pr by (simp add: checkExecutionPlan_fst_emit)
  have unknown: "\<not> type_known w"
    using checkExecutionPlan_return(2) [OF pr] by auto
  show ?thesis
    by (rule exI [of _ "[Conn, TypeForValue, RegisterEventstoreTypes, ConnClose]"])
       (simp add: E checkExecutionPlan_return(1) [OF pr'] unknown)
next
  fix e assume pr: "fst (checkExecutionPlan es w) = Return None"
    and E: "Eventstore_writeEvents es cs w = (Return ([], Some e), emit ConnClose (begun es w))"
  show ?thesis
    by (rule exI [of _ "[Conn, TypeForValue]
            @ (if type_known w then [] else [RegisterEventstoreTypes])
            @ [BeginTx txOptions, ConnClose]"])
       (simp add: E begun_trace [OF pr] begun_type_known [OF pr])
next
  fix p assume c: "client_Conn es = None" and pr: "fst (checkExecutionPlan es w) = Return None"
    and b: "conn_BeginTx es txOptions = None"
    and E: "Eventstore_writeEvents es cs w =
         (Panic p, emit ConnClose (snd (deferred_tx es None (snd (tx_steps es cs (begun es w))))))"
  obtain steps fin where t: "trace (snd (Eventstore_writeEvents es cs w)) =
       trace w @ [Conn, TypeForValue] @ (if type_known w then [] else [RegisterEventstoreTypes])
         @ [BeginTx txOptions] @ steps @ fin @ [ConnClose]"
    and sp: "\<forall>x\<in>set steps. phase_of x = Step \<or> phase_of x = Log"
    and sx: "\<forall>stmt. Exec stmt \<in> set steps \<longrightarrow>
        client_Type es = ''cockroach'' \<and> stmt = enable_multiple_modifications"
    and fp: "\<forall>x\<in>set fin. phase_of x = Conclude \<or> phase_of x = Log"
    using E_opened_trace [OF c pr b, of cs] by blast
  have tk: "type_known w \<Longrightarrow> type_known (snd (Eventstore_writeEvents es cs w))"
    using E begun_type_known [OF pr] by (simp add: deferred_tx_type_known tx_steps_type_known)
  show ?thesis
    by (rule exI [of _ "[Conn, TypeForValue]
            @ (if type_known w then [] else [RegisterEventstoreTypes])
            @ [BeginTx txOptions] @ steps @ fin @ [ConnClose]"])
       (use t sp sx fp tk in auto)
next
  fix evs err assume c: "client_Conn es = None"
    and pr: "fst (checkExecutionPlan es w) = Return None"
    and b: "conn_BeginTx es txOptions = None"
    and E: "Eventstore_writeEvents es cs w =
         (Return (evs, fst (deferred_tx es err (snd (tx_steps es cs (begun es w))))),
          emit ConnClose (snd (deferred_tx es err (snd (tx_steps es cs (begun es w))))))"
  obtain steps fin where t: "trace (snd (Eventstore_writeEvents es cs w)) =
       trace w @ [Conn, TypeForValue] @ (if type_known w then [] else [RegisterEventstoreTypes])
         @ [BeginTx txOptions] @ steps @ fin @ [ConnClose]"
    and sp: "\<forall>x\<in>set steps. phase_of x = Step \<or> phase_of x = Log"
    and sx: "\<forall>stmt. Exec stmt \<in> set steps \<longrightarrow>
        client_Type es = ''cockroach'' \<and> stmt = enable_multiple_modifications"
    and fp: "\<forall>x\<in>set fin. phase_of x = Conclude \<or> phase_of x = Log"
    using E_opened_trace [OF c pr b, of cs] by blast
  have tk: "type_known w \<Longrightarrow> type_known (snd (Eventstore_writeEvents es cs w))"
    using E begun_type_known [OF pr] by (simp add: deferred_tx_type_known tx_steps_type_known)
  show ?thesis
    by (rule exI [of _ "[Conn, TypeForValue]
            @ (if type_known w then [] else [RegisterEventstoreTypes])
            @ [BeginTx txOptions] @ steps @ fin @ [ConnClose]"])
       (use t sp sx fp tk in auto)
qed

lemma E_extends: "\<exists>ops. trace (snd (Eventstore_writeEvents es cs w)) = trace w @ ops"
  using E_trace [of es cs w]
  apply (elim exE conjE)
  apply (rule exI)
  apply assumption
  done

lemma Push_primary:
  "fst (Eventstore_writeEvents es cs w) = Return (evs, err) \<Longrightarrow> \<not> isSetupNotExecutedError es err \<Longrightarrow>
     Push es cs w = Eventstore_writeEvents es cs w"
  by (cases "Eventstore_writeEvents es cs w") (simp add: Push_def)

lemma Push_fallback:
  "fst (Eventstore_writeEvents es cs w) = Return (evs, err) \<Longrightarrow> isSetupNotExecutedError es err \<Longrightarrow>
     Push es cs w =
       (pushWithoutFunc es cs, emit (PushWithoutFunc cs) (snd (Eventstore_writeEvents es cs w)))"
  by (cases "Eventstore_writeEvents es cs w") (simp add: Push_def)

lemma Push_panic:
  "fst (Eventstore_writeEvents es cs w) = Panic p \<Longrightarrow>
     Push es cs w = Eventstore_writeEvents es cs w"
  by (cases "Eventstore_writeEvents es cs w") (simp add: Push_def)

lemma Push_new_ops:
  "new_ops w (snd (Push es cs w)) =
     new_ops w (snd (Eventstore_writeEvents es cs w)) @
     (if \<exists>evs err. fst (Eventstore_writeEvents es cs w) = Return (evs, err) \<and>
           isSetupNotExecutedError es err
      then [PushWithoutFunc cs] else [])"
proof -
  obtain ops where t: "trace (snd (Eventstore_writeEvents es cs w)) = trace w @ ops"
    using E_extends [of es cs w] ..
  show ?thesis
  proof (cases "fst (Eventstore_writeEvents es cs w)")
    case (Panic p)
    then show ?thesis using Push_panic [OF Panic] by simp
  next
    case (Return res)
    obtain evs err where res: "res = (evs, err)" by (cases res) auto
    note r = Return [unfolded res]
    show ?thesis
    proof (cases "isSetupNotExecutedError es err")
      case True
      then show ?thesis using Push_fallback [OF r True] r t by (auto simp: new_ops_def)
    next
      case False
      then show ?thesis using Push_primary [OF r False] r by auto
    qed
  qed
qed

lemma E_new_ops:
  "trace (snd (Eventstore_writeEvents es cs w)) =
     trace w @ new_ops w (snd (Eventstore_writeEvents es cs w))"
proof -
  obtain ops where t: "trace (snd (Eventstore_writeEvents es cs w)) = trace w @ ops"
    using E_extends [of es cs w] ..
  then show ?thesis by (simp add: new_ops_def)
qed


lemma E_ops:
  obtains ops where "trace (snd (Eventstore_writeEvents es cs w)) = trace w @ ops"
    "new_ops w (snd (Eventstore_writeEvents es cs w)) = ops"
    "\<forall>x\<in>set ops. phase_of x \<noteq> Fallback"
    "\<forall>stmt. Exec stmt \<in> set ops \<longrightarrow>
        client_Type es = ''cockroach'' \<and> stmt = enable_multiple_modifications"
    "type_known w \<longrightarrow> RegisterEventstoreTypes \<notin> set ops \<and>
        type_known (snd (Eventstore_writeEvents es cs w))"
    "\<forall>opts. BeginTx opts \<in> set ops \<longrightarrow>
        (\<exists>post. ops = [Conn, TypeForValue]
            @ (if type_known w then [] else [RegisterEventstoreTypes])
            @ BeginTx txOptions # post \<and>
          (\<forall>x\<in>set post. phase_of x \<noteq> Probe \<and> phase_of x \<noteq> Begin))"
  using E_trace [of es cs w]
  apply (elim exE conjE)
  apply (rule that)
       apply assumption
      apply (erule new_ops_append)
     apply assumption+
  done

lemma is_fallback_phase: "is_fallback x \<longleftrightarrow> phase_of x = Fallback"
  by (cases x) simp_all

lemmas run_defs =
  Push_def Eventstore_writeEvents_def tx_steps_def writeEvents_def checkExecutionPlan_def
  deferred_tx_def emit_def Let_def txOptions_def enable_multiple_modifications_def new_ops_def
  es_ok_def es_commit_fails_def es_flat_def es_unique_fails_def es_cockroach_def
  es_begin_fails_def es_unprovisioned_def es_silent_def w_known_def w_fresh_def placeholder_def encode_def

lemma tx_steps_ok_inv:
  assumes "fst (tx_steps es cs w) = Return (evs, None)"
  shows "fst (writeEvents es cs w) = Return (evs, None) \<and>
     handleUniqueConstraints es cs = None \<and>
     (client_Type es = ''cockroach'' \<longrightarrow> tx_Exec es enable_multiple_modifications = None) \<and>
     handleFieldCommands es cs = None"
  by (rule tx_steps_cases [of es cs w]) (use assms in \<open>simp_all split: option.splits\<close>)

lemma tx_steps_err_nil:
  assumes "fst (tx_steps es cs w) = Return (evs, Some e)"
  shows "evs = []"
  by (rule tx_steps_cases [of es cs w]) (use assms in \<open>simp_all split: option.splits\<close>)


lemma writeEvents_ok_inv:
  assumes "fst (writeEvents es cs w) = Return (evs, None)"
    and "commandsToEvents es cs = Inr (evs0, cmds)"
    and "tx_QueryContext es (push2Stmt es) cmds = Inr rows"
  shows "fst (scan_rows 0 (scans rows) evs0 w) = Return (evs, None) \<and> rows_err rows = None \<and>
     snd (writeEvents es cs w) = emit RowsClose (emit (QueryContext (push2Stmt es) cmds) w)"
  by (rule writeEvents_cases [of es cs]) (use assms in simp_all)

lemma scan_rows_inv0:
  assumes "fst (scan_rows 0 rs evs0 w) = Return (evs, None)"
  shows "length evs = length evs0"
    and "length rs \<le> length evs0"
    and "\<forall>i<length rs. \<exists>c s p e0. rs ! i = Inr (c, s, p) \<and> evs0 ! i = EventPtr e0 \<and>
           evs ! i = EventPtr (e0\<lparr>createdAt := c, sequence := s, position := p\<rparr>)"
    and "\<forall>i. length rs \<le> i \<longrightarrow> evs ! i = evs0 ! i"
proof -
  have "scan_rows 0 rs evs0 w = (Return (evs, None), snd (scan_rows 0 rs evs0 w))"
    using assms by (cases "scan_rows 0 rs evs0 w") simp
  note inv = scan_rows_inv [OF this]
  show "length evs = length evs0" using inv by simp
  show "length rs \<le> length evs0" using inv by (cases rs) simp_all
  show "\<forall>i<length rs. \<exists>c s p e0. rs ! i = Inr (c, s, p) \<and> evs0 ! i = EventPtr e0 \<and>
           evs ! i = EventPtr (e0\<lparr>createdAt := c, sequence := s, position := p\<rparr>)"
    using inv by simp
  show "\<forall>i. length rs \<le> i \<longrightarrow> evs ! i = evs0 ! i" using inv by simp
qed


lemma E_opened_return_trace:
  assumes c: "client_Conn es = None" and p: "fst (checkExecutionPlan es w) = Return None"
    and b: "conn_BeginTx es txOptions = None"
    and st: "fst (tx_steps es cs w) = Return (evs, err)"
  obtains steps where
    "new_ops w (snd (Eventstore_writeEvents es cs w)) =
       [Conn, TypeForValue] @ (if type_known w then [] else [RegisterEventstoreTypes])
         @ [BeginTx txOptions] @ steps
         @ new_ops (snd (tx_steps es cs (begun es w)))
             (snd (deferred_tx es err (snd (tx_steps es cs (begun es w)))))
         @ [ConnClose]"
    "trace (snd (tx_steps es cs (begun es w))) = trace (begun es w) @ steps"
    "\<forall>x\<in>set steps. phase_of x = Step \<or> phase_of x = Log"
    "fst (Eventstore_writeEvents es cs w) =
       Return (evs, fst (deferred_tx es err (snd (tx_steps es cs (begun es w)))))"
proof -
  from E_opened_trace [OF c p b, of cs] obtain steps fin where
    t: "trace (snd (Eventstore_writeEvents es cs w)) =
       trace w @ [Conn, TypeForValue] @ (if type_known w then [] else [RegisterEventstoreTypes])
         @ [BeginTx txOptions] @ steps @ fin @ [ConnClose]"
    and s: "trace (snd (tx_steps es cs (begun es w))) = trace (begun es w) @ steps"
    and f: "trace (snd (deferred_tx es
         (case fst (tx_steps es cs w) of Panic p \<Rightarrow> None | Return (evs, err) \<Rightarrow> err)
         (snd (tx_steps es cs (begun es w))))) =
       trace (snd (tx_steps es cs (begun es w))) @ fin"
    and sp: "\<forall>x\<in>set steps. phase_of x = Step \<or> phase_of x = Log"
    by blast
  have f': "trace (snd (deferred_tx es err (snd (tx_steps es cs (begun es w))))) =
       trace (snd (tx_steps es cs (begun es w))) @ fin"
    using f st by simp
  have n: "new_ops w (snd (Eventstore_writeEvents es cs w)) =
       [Conn, TypeForValue] @ (if type_known w then [] else [RegisterEventstoreTypes])
         @ [BeginTx txOptions] @ steps
         @ new_ops (snd (tx_steps es cs (begun es w)))
             (snd (deferred_tx es err (snd (tx_steps es cs (begun es w)))))
         @ [ConnClose]"
    using new_ops_append [OF t] new_ops_append [OF f'] by simp
  show ?thesis
    by (rule that [OF n s sp]) (simp add: E_steps_return [OF c p b st])
qed

lemma step_error_tx_steps:
  assumes "(\<exists>evs. fst (writeEvents es cs w) = Return (evs, Some e)) \<or>
      (\<exists>evs. fst (writeEvents es cs w) = Return (evs, None) \<and>
         (handleUniqueConstraints es cs = Some e \<or>
          handleUniqueConstraints es cs = None \<and>
            (client_Type es = ''cockroach'' \<and>
               tx_Exec es enable_multiple_modifications = Some e \<or>
             (client_Type es \<noteq> ''cockroach'' \<or>
                tx_Exec es enable_multiple_modifications = None) \<and>
               handleFieldCommands es cs = Some e)))"
  shows "fst (tx_steps es cs w) = Return ([], Some e)"
proof -
  consider (ins) evs where "fst (writeEvents es cs w) = Return (evs, Some e)"
    | (uniq) evs where "fst (writeEvents es cs w) = Return (evs, None)"
        "handleUniqueConstraints es cs = Some e"
    | (exec) evs where "fst (writeEvents es cs w) = Return (evs, None)"
        "handleUniqueConstraints es cs = None" "client_Type es = ''cockroach''"
        "tx_Exec es enable_multiple_modifications = Some e"
    | (field_c) evs where "fst (writeEvents es cs w) = Return (evs, None)"
        "handleUniqueConstraints es cs = None" "client_Type es = ''cockroach''"
        "tx_Exec es enable_multiple_modifications = None" "handleFieldCommands es cs = Some e"
    | (field_o) evs where "fst (writeEvents es cs w) = Return (evs, None)"
        "handleUniqueConstraints es cs = None" "client_Type es \<noteq> ''cockroach''"
        "handleFieldCommands es cs = Some e"
    using assms by blast
  then show ?thesis
  proof cases
    case ins
    then show ?thesis by (simp add: tx_steps_insert_fails)
  next
    case uniq
    then show ?thesis by (simp add: tx_steps_unique_fails)
  next
    case exec
    then show ?thesis by (simp add: tx_steps_exec_fails)
  next
    case field_c
    then show ?thesis by (simp add: tx_steps_exec_ok)
  next
    case field_o
    then show ?thesis by (simp add: tx_steps_no_exec)
  qed
qed

lemma E_commit_fails:
  assumes c: "client_Conn es = None" and p: "fst (checkExecutionPlan es w) = Return None"
    and b: "conn_BeginTx es txOptions = None"
    and st: "fst (tx_steps es cs w) = Return (evs, None)"
    and cf: "tx_Commit es = Some ce"
  shows "fst (Eventstore_writeEvents es cs w) = Return (evs, Some ce)"
    and "\<exists>steps. new_ops w (snd (Eventstore_writeEvents es cs w)) =
       [Conn, TypeForValue] @ (if type_known w then [] else [RegisterEventstoreTypes])
         @ [BeginTx txOptions] @ steps
         @ [Commit (Some ce), LogWarn ''failed to commit transaction'' ce, ConnClose] \<and>
       (\<forall>x\<in>set steps. phase_of x = Step \<or> phase_of x = Log)"
proof -
  have fin: "new_ops (snd (tx_steps es cs (begun es w)))
             (snd (deferred_tx es None (snd (tx_steps es cs (begun es w))))) =
           [Commit (Some ce), LogWarn ''failed to commit transaction'' ce]"
    by (simp add: deferred_tx_commit_fails [OF cf] new_ops_def)
  show "fst (Eventstore_writeEvents es cs w) = Return (evs, Some ce)"
    by (simp add: E_steps_return [OF c p b st] deferred_tx_commit_fails [OF cf])
  show "\<exists>steps. new_ops w (snd (Eventstore_writeEvents es cs w)) =
       [Conn, TypeForValue] @ (if type_known w then [] else [RegisterEventstoreTypes])
         @ [BeginTx txOptions] @ steps
         @ [Commit (Some ce), LogWarn ''failed to commit transaction'' ce, ConnClose] \<and>
       (\<forall>x\<in>set steps. phase_of x = Step \<or> phase_of x = Log)"
  proof (rule E_opened_return_trace [OF c p b st])
    fix steps
    assume n: "new_ops w (snd (Eventstore_writeEvents es cs w)) =
       [Conn, TypeForValue] @ (if type_known w then [] else [RegisterEventstoreTypes])
         @ [BeginTx txOptions] @ steps
         @ new_ops (snd (tx_steps es cs (begun es w)))
             (snd (deferred_tx es None (snd (tx_steps es cs (begun es w)))))
         @ [ConnClose]"
      and sp: "\<forall>x\<in>set steps. phase_of x = Step \<or> phase_of x = Log"
    have "new_ops w (snd (Eventstore_writeEvents es cs w)) =
       [Conn, TypeForValue] @ (if type_known w then [] else [RegisterEventstoreTypes])
         @ [BeginTx txOptions] @ steps
         @ [Commit (Some ce), LogWarn ''failed to commit transaction'' ce, ConnClose]"
      using n fin by simp
    then show ?thesis using sp by (intro exI [of _ steps] conjI)
  qed
qed

lemma deferred_tx_None:
  assumes "fst (deferred_tx es err v) = None"
  shows "err = None \<and> tx_Commit es = None"
  using assms
  by (cases err; cases "tx_Commit es")
     (simp_all add: deferred_tx_rollback deferred_tx_commit_fails)

lemma E_ok_inv:
  assumes "fst (Eventstore_writeEvents es cs w) = Return (evs, None)"
  shows "fst (tx_steps es cs w) = Return (evs, None) \<and> tx_Commit es = None \<and>
     client_Conn es = None \<and> fst (checkExecutionPlan es w) = Return None \<and>
     conn_BeginTx es txOptions = None"
proof (rule E_cases [of es cs w])
  fix evs' err
  assume c: "client_Conn es = None" and p: "fst (checkExecutionPlan es w) = Return None"
    and b: "conn_BeginTx es txOptions = None"
    and st: "fst (tx_steps es cs w) = Return (evs', err)"
    and E: "Eventstore_writeEvents es cs w =
         (Return (evs', fst (deferred_tx es err (snd (tx_steps es cs (begun es w))))),
          emit ConnClose (snd (deferred_tx es err (snd (tx_steps es cs (begun es w))))))"
  from assms E have e: "evs' = evs"
    and d: "fst (deferred_tx es err (snd (tx_steps es cs (begun es w)))) = None"
    by simp_all
  from deferred_tx_None [OF d] have "err = None" "tx_Commit es = None" by simp_all
  then show ?thesis using c p b st e by simp
qed (use assms in simp_all)

lemma writeEvents_panic_iff:
  assumes "commandsToEvents es cs = Inr (evs, cmds)"
    and "tx_QueryContext es (push2Stmt es) cmds = Inr rows"
  shows "fst (writeEvents es cs w) = Panic p \<longleftrightarrow>
     fst (scan_rows 0 (scans rows) evs w) = Panic p"
proof (cases "fst (scan_rows 0 (scans rows) evs w)")
  case (Panic q)
  then show ?thesis using writeEvents_scanned [OF assms, of w] by simp
next
  case (Return res)
  obtain evs' err where res: "res = (evs', err)" by (cases res) auto
  show ?thesis using writeEvents_scanned [OF assms, of w] Return res
    by (cases err; cases "rows_err rows") simp_all
qed

lemma Push_type_known:
  "type_known (snd (Push es cs w)) = type_known (snd (Eventstore_writeEvents es cs w))"
proof (cases "fst (Eventstore_writeEvents es cs w)")
  case (Panic p)
  then show ?thesis using Push_panic [OF Panic] by simp
next
  case (Return res)
  obtain evs err where res: "res = (evs, err)" by (cases res) auto
  note r = Return [unfolded res]
  show ?thesis
  proof (cases "isSetupNotExecutedError es err")
    case True
    then show ?thesis using Push_fallback [OF r True] by simp
  next
    case False
    then show ?thesis using Push_primary [OF r False] by simp
  qed
qed

lemma Push_keeps_known:
  assumes "type_known w"
  shows "RegisterEventstoreTypes \<notin> set (new_ops w (snd (Push es cs w))) \<and>
     type_known (snd (Push es cs w))"
proof -
  obtain ops where n: "new_ops w (snd (Eventstore_writeEvents es cs w)) = ops"
    and k: "type_known w \<longrightarrow> RegisterEventstoreTypes \<notin> set ops \<and>
        type_known (snd (Eventstore_writeEvents es cs w))"
    by (rule E_ops [of es cs w])
  from k assms have a: "RegisterEventstoreTypes \<notin> set ops"
    and b: "type_known (snd (Eventstore_writeEvents es cs w))" by simp_all
  have "RegisterEventstoreTypes \<notin> set (new_ops w (snd (Push es cs w)))"
    using a by (simp add: Push_new_ops n)
  then show ?thesis using b by (simp add: Push_type_known)
qed

lemma writeEvents_ok_world:
  assumes "fst (writeEvents es cs w) = Return (evs, None)"
  shows "\<exists>cmds. \<forall>v. writeEvents es cs v =
       (Return (evs, None), emit RowsClose (emit (QueryContext (push2Stmt es) cmds) v))"
proof (rule writeEvents_cases [of es cs])
  fix evs0 cmds rows evs'
  assume a: "\<And>w. writeEvents es cs w =
         (Return (evs', None), emit RowsClose (emit (QueryContext (push2Stmt es) cmds) w))"
  have "evs' = evs" using assms a by simp
  then have "\<forall>v. writeEvents es cs v =
       (Return (evs, None), emit RowsClose (emit (QueryContext (push2Stmt es) cmds) v))"
    using a by simp
  then show ?thesis by (rule exI)
qed (use assms in simp_all)

lemma tx_steps_after_unique:
  assumes ins: "\<And>v. writeEvents es cs v =
       (Return (evs, None), emit RowsClose (emit (QueryContext (push2Stmt es) cmds) v))"
    and u: "handleUniqueConstraints es cs = None"
  shows "trace (snd (tx_steps es cs v)) =
     trace v @ [QueryContext (push2Stmt es) cmds, RowsClose, HandleUniqueConstraints cs]
       @ (if client_Type es = ''cockroach'' then [Exec enable_multiple_modifications] else [])
       @ (if client_Type es = ''cockroach'' \<and> tx_Exec es enable_multiple_modifications \<noteq> None
          then [] else [HandleFieldCommands cs])"
proof -
  have i: "fst (writeEvents es cs v) = Return (evs, None)" by (simp add: ins)
  show ?thesis
  proof (cases "client_Type es = ''cockroach''")
    case False
    then show ?thesis using tx_steps_no_exec [OF i u False] by (simp add: ins)
  next
    case True
    show ?thesis
    proof (cases "tx_Exec es enable_multiple_modifications")
      case None
      then show ?thesis using tx_steps_exec_ok [OF i u True None] True by (simp add: ins)
    next
      case (Some e)
      then show ?thesis using tx_steps_exec_fails [OF i u True Some] True by (simp add: ins)
    qed
  qed
qed

section \<open>The claims\<close>

text \<open>
  C3. The fallback path \<open>pushWithoutFunc\<close> runs at most once in a call of \<open>Push\<close>, and
  it runs exactly when the primary path returned and \<open>isSetupNotExecutedError\<close> accepts its
  error; when the primary path returns an error that is not accepted, \<open>Push\<close> returns what
  the primary path returned and makes no further call.
\<close>

theorem fallback_at_most_once:
  "length (filter is_fallback (new_ops w (snd (Push es cs w)))) \<le> 1 \<and>
   ((\<exists>c. PushWithoutFunc c \<in> set (new_ops w (snd (Push es cs w)))) \<longleftrightarrow>
      (\<exists>evs err. fst (Eventstore_writeEvents es cs w) = Return (evs, err) \<and>
         isSetupNotExecutedError es err)) \<and>
   (\<forall>evs err. fst (Eventstore_writeEvents es cs w) = Return (evs, err) \<and>
        \<not> isSetupNotExecutedError es err \<longrightarrow>
      Push es cs w = (Return (evs, err), snd (Eventstore_writeEvents es cs w)))"
proof -
  obtain ops where n: "new_ops w (snd (Eventstore_writeEvents es cs w)) = ops"
    and nf: "\<forall>x\<in>set ops. phase_of x \<noteq> Fallback"
    by (rule E_ops [of es cs w])
  have none: "filter is_fallback ops = []"
    using nf by (simp add: is_fallback_phase)
  have notin: "PushWithoutFunc c \<notin> set ops" for c
    using nf by force
  have 1: "length (filter is_fallback (new_ops w (snd (Push es cs w)))) \<le> 1"
    by (simp add: Push_new_ops n none)
  have 2: "(\<exists>c. PushWithoutFunc c \<in> set (new_ops w (snd (Push es cs w)))) \<longleftrightarrow>
      (\<exists>evs err. fst (Eventstore_writeEvents es cs w) = Return (evs, err) \<and>
         isSetupNotExecutedError es err)"
    by (simp add: Push_new_ops n notin)
  have 3: "Push es cs w = (Return (evs, err), snd (Eventstore_writeEvents es cs w))"
    if "fst (Eventstore_writeEvents es cs w) = Return (evs, err)"
      "\<not> isSetupNotExecutedError es err" for evs err
    using Push_primary [OF that] that(1)
    by (cases "Eventstore_writeEvents es cs w") simp
  show ?thesis using 1 2 3 by blast
qed

theorem fallback_at_most_once_witness:
  "fst (Eventstore_writeEvents es_begin_fails [cmd_a] w_known) =
      Return ([], Some (Error ''begin failed'')) \<and>
   \<not> isSetupNotExecutedError es_begin_fails (Some (Error ''begin failed'')) \<and>
   Push es_begin_fails [cmd_a] w_known =
     (Return ([], Some (Error ''begin failed'')),
      snd (Eventstore_writeEvents es_begin_fails [cmd_a] w_known)) \<and>
   fst (Eventstore_writeEvents es_unprovisioned [cmd_a] w_known) =
      Return ([], Some (Error ''setup not executed'')) \<and>
   isSetupNotExecutedError es_unprovisioned (Some (Error ''setup not executed'')) \<and>
   (\<exists>c. PushWithoutFunc c \<in> set (new_ops w_known (snd (Push es_unprovisioned [cmd_a] w_known)))) \<and>
   length (filter is_fallback (new_ops w_known (snd (Push es_unprovisioned [cmd_a] w_known)))) \<le> 1"
proof -
  have a: "fst (Eventstore_writeEvents es_begin_fails [cmd_a] w_known) =
      Return ([], Some (Error ''begin failed''))"
    by (simp add: run_defs)
  have b: "\<not> isSetupNotExecutedError es_begin_fails (Some (Error ''begin failed''))"
    by (simp add: run_defs)
  have c: "fst (Eventstore_writeEvents es_unprovisioned [cmd_a] w_known) =
      Return ([], Some (Error ''setup not executed''))"
    by (simp add: run_defs)
  have d: "isSetupNotExecutedError es_unprovisioned (Some (Error ''setup not executed''))"
    by (simp add: run_defs)
  from fallback_at_most_once [of w_known es_begin_fails "[cmd_a]"] a b
  have e: "Push es_begin_fails [cmd_a] w_known =
     (Return ([], Some (Error ''begin failed'')),
      snd (Eventstore_writeEvents es_begin_fails [cmd_a] w_known))"
    by blast
  from fallback_at_most_once [of w_known es_unprovisioned "[cmd_a]"] c d
  have f: "(\<exists>c. PushWithoutFunc c \<in> set (new_ops w_known (snd (Push es_unprovisioned [cmd_a] w_known)))) \<and>
   length (filter is_fallback (new_ops w_known (snd (Push es_unprovisioned [cmd_a] w_known)))) \<le> 1"
    by blast
  show ?thesis using a b c d e f by blast
qed

text \<open>
  C8. Every transaction the call begins is begun with isolation level read committed and
  not read-only, and it is begun whenever the connection is acquired and the probe
  succeeds. When \<open>BeginTx\<close> fails, the method \<open>writeEvents\<close> returns that error after
  closing the connection: no call of the insert, constraint, accommodation or projection
  steps is made, and nothing is committed or rolled back; \<open>Push\<close> hands the error on
  unless it is classified as setup-not-executed.
\<close>

theorem begin_tx_read_committed:
  "(\<forall>opts. BeginTx opts \<in> set (new_ops w (snd (Push es cs w))) \<longrightarrow>
      Isolation opts = LevelReadCommitted \<and> \<not> ReadOnly opts) \<and>
   (client_Conn es = None \<and> fst (checkExecutionPlan es w) = Return None \<longrightarrow>
      BeginTx txOptions \<in> set (new_ops w (snd (Push es cs w)))) \<and>
   (\<forall>e. client_Conn es = None \<and> fst (checkExecutionPlan es w) = Return None \<and>
        conn_BeginTx es txOptions = Some e \<longrightarrow>
      fst (Eventstore_writeEvents es cs w) = Return ([], Some e) \<and>
      new_ops w (snd (Eventstore_writeEvents es cs w)) =
        [Conn, TypeForValue] @ (if type_known w then [] else [RegisterEventstoreTypes])
          @ [BeginTx txOptions, ConnClose] \<and>
      (\<forall>x\<in>set (new_ops w (snd (Eventstore_writeEvents es cs w))).
         phase_of x \<noteq> Step \<and> phase_of x \<noteq> Conclude) \<and>
      (\<not> isSetupNotExecutedError es (Some e) \<longrightarrow>
         Push es cs w = Eventstore_writeEvents es cs w))"
proof -
  obtain ops where n: "new_ops w (snd (Eventstore_writeEvents es cs w)) = ops"
    and b: "\<forall>opts. BeginTx opts \<in> set ops \<longrightarrow>
        (\<exists>post. ops = [Conn, TypeForValue]
            @ (if type_known w then [] else [RegisterEventstoreTypes])
            @ BeginTx txOptions # post \<and>
          (\<forall>x\<in>set post. phase_of x \<noteq> Probe \<and> phase_of x \<noteq> Begin))"
    by (rule E_ops [of es cs w])
  have only: "opts = txOptions" if "BeginTx opts \<in> set ops" for opts
  proof -
    from b that obtain post where ops: "ops = [Conn, TypeForValue]
            @ (if type_known w then [] else [RegisterEventstoreTypes])
            @ BeginTx txOptions # post"
      and post: "\<forall>x\<in>set post. phase_of x \<noteq> Probe \<and> phase_of x \<noteq> Begin"
      by blast
    have "BeginTx opts \<notin> set post" using post by force
    then show ?thesis using that ops by (auto split: if_splits)
  qed
  have 1: "Isolation opts = LevelReadCommitted \<and> \<not> ReadOnly opts"
    if "BeginTx opts \<in> set (new_ops w (snd (Push es cs w)))" for opts
  proof -
    from that have "BeginTx opts \<in> set ops"
      by (auto simp: Push_new_ops n split: if_splits)
    then have "opts = txOptions" by (rule only)
    then show ?thesis by (simp add: txOptions_def)
  qed
  have 2: "BeginTx txOptions \<in> set (new_ops w (snd (Push es cs w)))"
    if c: "client_Conn es = None" and p: "fst (checkExecutionPlan es w) = Return None"
  proof -
    have "BeginTx txOptions \<in> set ops"
    proof (cases "conn_BeginTx es txOptions")
      case (Some e)
      have "trace (snd (Eventstore_writeEvents es cs w)) =
          trace w @ [Conn, TypeForValue] @ (if type_known w then [] else [RegisterEventstoreTypes])
            @ [BeginTx txOptions, ConnClose]"
        using E_begin_fails [OF c p Some, of cs] begun_trace [OF p] by simp
      from new_ops_append [OF this] show ?thesis using n by auto
    next
      case None
      from E_opened_trace [OF c p None, of cs] obtain steps fin where
        "trace (snd (Eventstore_writeEvents es cs w)) =
          trace w @ [Conn, TypeForValue] @ (if type_known w then [] else [RegisterEventstoreTypes])
            @ [BeginTx txOptions] @ steps @ fin @ [ConnClose]"
        by blast
      from new_ops_append [OF this] show ?thesis using n by auto
    qed
    then show ?thesis by (simp add: Push_new_ops n)
  qed
  have 3: "fst (Eventstore_writeEvents es cs w) = Return ([], Some e) \<and>
      new_ops w (snd (Eventstore_writeEvents es cs w)) =
        [Conn, TypeForValue] @ (if type_known w then [] else [RegisterEventstoreTypes])
          @ [BeginTx txOptions, ConnClose] \<and>
      (\<forall>x\<in>set (new_ops w (snd (Eventstore_writeEvents es cs w))).
         phase_of x \<noteq> Step \<and> phase_of x \<noteq> Conclude) \<and>
      (\<not> isSetupNotExecutedError es (Some e) \<longrightarrow>
         Push es cs w = Eventstore_writeEvents es cs w)"
    if c: "client_Conn es = None" and p: "fst (checkExecutionPlan es w) = Return None"
      and f: "conn_BeginTx es txOptions = Some e" for e
  proof -
    note E = E_begin_fails [OF c p f, of cs]
    have r: "fst (Eventstore_writeEvents es cs w) = Return ([], Some e)" using E by simp
    have "trace (snd (Eventstore_writeEvents es cs w)) =
          trace w @ [Conn, TypeForValue] @ (if type_known w then [] else [RegisterEventstoreTypes])
            @ [BeginTx txOptions, ConnClose]"
      using E begun_trace [OF p] by simp
    from new_ops_append [OF this]
    have t: "new_ops w (snd (Eventstore_writeEvents es cs w)) =
        [Conn, TypeForValue] @ (if type_known w then [] else [RegisterEventstoreTypes])
          @ [BeginTx txOptions, ConnClose]" .
    have ph: "\<forall>x\<in>set (new_ops w (snd (Eventstore_writeEvents es cs w))).
         phase_of x \<noteq> Step \<and> phase_of x \<noteq> Conclude"
      by (simp add: t)
    show ?thesis using r t ph Push_primary [OF r] by blast
  qed
  show ?thesis using 1 2 3 by blast
qed

theorem begin_tx_read_committed_witness:
  "client_Conn es_begin_fails = None \<and>
   fst (checkExecutionPlan es_begin_fails w_fresh) = Return None \<and>
   conn_BeginTx es_begin_fails txOptions = Some (Error ''begin failed'') \<and>
   \<not> isSetupNotExecutedError es_begin_fails (Some (Error ''begin failed'')) \<and>
   fst (Push es_begin_fails [cmd_a, cmd_b] w_fresh) = Return ([], Some (Error ''begin failed'')) \<and>
   new_ops w_fresh (snd (Push es_begin_fails [cmd_a, cmd_b] w_fresh)) =
     [Conn, TypeForValue, RegisterEventstoreTypes,
      BeginTx \<lparr>Isolation = LevelReadCommitted, ReadOnly = False\<rparr>, ConnClose]"
proof -
  have c: "client_Conn es_begin_fails = None" by (simp add: run_defs)
  have p: "fst (checkExecutionPlan es_begin_fails w_fresh) = Return None"
    by (simp add: run_defs)
  have f: "conn_BeginTx es_begin_fails txOptions = Some (Error ''begin failed'')"
    by (simp add: run_defs)
  have n: "\<not> isSetupNotExecutedError es_begin_fails (Some (Error ''begin failed''))"
    by (simp add: run_defs)
  have k: "\<not> type_known w_fresh" by (simp add: w_fresh_def)
  from begin_tx_read_committed [of w_fresh es_begin_fails "[cmd_a, cmd_b]"] c p f n k
  have "fst (Push es_begin_fails [cmd_a, cmd_b] w_fresh) = Return ([], Some (Error ''begin failed'')) \<and>
   new_ops w_fresh (snd (Push es_begin_fails [cmd_a, cmd_b] w_fresh)) =
     [Conn, TypeForValue, RegisterEventstoreTypes, BeginTx txOptions, ConnClose]"
    by simp
  then show ?thesis using c p f n by (simp add: txOptions_def)
qed

text \<open>
  C5. When an error arises in the batched insert, in the unique-constraint step, in the
  statement for the distributed-SQL backend or in the field-projection step, the method
  \<open>writeEvents\<close> returns exactly that error with no events; the last calls it makes are
  \<open>tx.Rollback\<close> and \<open>conn.Close\<close>, whatever the rollback itself returns, and it never
  calls \<open>tx.Commit\<close>. \<open>Push\<close> returns the same to its caller unless the error is
  classified as setup-not-executed.
\<close>

theorem step_error_rolls_back:
  assumes "client_Conn es = None" and "fst (checkExecutionPlan es w) = Return None"
    and "conn_BeginTx es txOptions = None"
    and "(\<exists>evs. fst (writeEvents es cs w) = Return (evs, Some e)) \<or>
      (\<exists>evs. fst (writeEvents es cs w) = Return (evs, None) \<and>
         (handleUniqueConstraints es cs = Some e \<or>
          handleUniqueConstraints es cs = None \<and>
            (client_Type es = ''cockroach'' \<and>
               tx_Exec es enable_multiple_modifications = Some e \<or>
             (client_Type es \<noteq> ''cockroach'' \<or>
                tx_Exec es enable_multiple_modifications = None) \<and>
               handleFieldCommands es cs = Some e)))"
  shows "fst (Eventstore_writeEvents es cs w) = Return ([], Some e) \<and>
     (\<exists>pre. new_ops w (snd (Eventstore_writeEvents es cs w)) =
         pre @ [Rollback (tx_Rollback es), ConnClose] \<and>
       (\<forall>x\<in>set pre. phase_of x \<noteq> Conclude)) \<and>
     (\<forall>r. Commit r \<notin> set (new_ops w (snd (Eventstore_writeEvents es cs w)))) \<and>
     (\<not> isSetupNotExecutedError es (Some e) \<longrightarrow>
        Push es cs w = Eventstore_writeEvents es cs w)"
proof -
  have st: "fst (tx_steps es cs w) = Return ([], Some e)"
    using assms(4) by (rule step_error_tx_steps)
  show ?thesis
  proof (rule E_opened_return_trace [OF assms(1-3) st])
  fix steps
  assume n: "new_ops w (snd (Eventstore_writeEvents es cs w)) =
       [Conn, TypeForValue] @ (if type_known w then [] else [RegisterEventstoreTypes])
         @ [BeginTx txOptions] @ steps
         @ new_ops (snd (tx_steps es cs (begun es w)))
             (snd (deferred_tx es (Some e) (snd (tx_steps es cs (begun es w)))))
         @ [ConnClose]"
    and sp: "\<forall>x\<in>set steps. phase_of x = Step \<or> phase_of x = Log"
    and r: "fst (Eventstore_writeEvents es cs w) =
       Return ([], fst (deferred_tx es (Some e) (snd (tx_steps es cs (begun es w)))))"
  let ?pre = "[Conn, TypeForValue] @ (if type_known w then [] else [RegisterEventstoreTypes])
         @ [BeginTx txOptions] @ steps"
  have fin: "new_ops (snd (tx_steps es cs (begun es w)))
             (snd (deferred_tx es (Some e) (snd (tx_steps es cs (begun es w))))) =
           [Rollback (tx_Rollback es)]"
    by (simp add: deferred_tx_rollback new_ops_def)
  have 1: "fst (Eventstore_writeEvents es cs w) = Return ([], Some e)"
    using r by (simp add: deferred_tx_rollback)
  have 2: "new_ops w (snd (Eventstore_writeEvents es cs w)) =
         ?pre @ [Rollback (tx_Rollback es), ConnClose]"
    using n fin by simp
  have 3: "\<forall>x\<in>set ?pre. phase_of x \<noteq> Conclude"
  proof
    fix x assume "x \<in> set ?pre"
    then consider "x = Conn" | "x = TypeForValue" | "x = RegisterEventstoreTypes"
      | "x = BeginTx txOptions" | "x \<in> set steps"
      by (auto split: if_splits)
    then show "phase_of x \<noteq> Conclude"
    proof cases
      case 5
      then have "phase_of x = Step \<or> phase_of x = Log" using sp by simp
      then show ?thesis by auto
    qed simp_all
  qed
  have ex: "\<exists>pre. new_ops w (snd (Eventstore_writeEvents es cs w)) =
         pre @ [Rollback (tx_Rollback es), ConnClose] \<and>
       (\<forall>x\<in>set pre. phase_of x \<noteq> Conclude)"
  proof (intro exI conjI)
    show "new_ops w (snd (Eventstore_writeEvents es cs w)) =
         ?pre @ [Rollback (tx_Rollback es), ConnClose]" by (rule 2)
    show "\<forall>x\<in>set ?pre. phase_of x \<noteq> Conclude" by (rule 3)
  qed
  have 4: "\<forall>r. Commit r \<notin> set (new_ops w (snd (Eventstore_writeEvents es cs w)))"
  proof
    fix r
    have "phase_of (Commit r) = Conclude" by simp
    then have "Commit r \<notin> set ?pre" using 3 by metis
    then show "Commit r \<notin> set (new_ops w (snd (Eventstore_writeEvents es cs w)))"
      unfolding 2 by simp
  qed
  have 5: "\<not> isSetupNotExecutedError es (Some e) \<longrightarrow>
        Push es cs w = Eventstore_writeEvents es cs w"
    using Push_primary [OF 1] by simp
  from 1 ex 4 5 show ?thesis by (intro conjI)
  qed
qed

theorem step_error_rolls_back_witness:
  "client_Conn es_unique_fails = None \<and>
   fst (checkExecutionPlan es_unique_fails w_known) = Return None \<and>
   conn_BeginTx es_unique_fails txOptions = None \<and>
   fst (writeEvents es_unique_fails [cmd_a] w_known) =
     Return ([EventPtr \<lparr>command = cmd_a, createdAt = 100, sequence = 1, position = 1\<rparr>], None) \<and>
   handleUniqueConstraints es_unique_fails [cmd_a] = Some (Error ''unique constraint violated'') \<and>
   tx_Rollback es_unique_fails = Some (Error ''rollback failed'') \<and>
   Push es_unique_fails [cmd_a] w_known = Eventstore_writeEvents es_unique_fails [cmd_a] w_known \<and>
   fst (Eventstore_writeEvents es_unique_fails [cmd_a] w_known) =
     Return ([], Some (Error ''unique constraint violated''))"
proof -
  have c: "client_Conn es_unique_fails = None" by (simp add: run_defs)
  have p: "fst (checkExecutionPlan es_unique_fails w_known) = Return None"
    by (simp add: run_defs)
  have b: "conn_BeginTx es_unique_fails txOptions = None" by (simp add: run_defs)
  have i: "fst (writeEvents es_unique_fails [cmd_a] w_known) =
     Return ([EventPtr \<lparr>command = cmd_a, createdAt = 100, sequence = 1, position = 1\<rparr>], None)"
    by (simp add: run_defs)
  have u: "handleUniqueConstraints es_unique_fails [cmd_a] =
      Some (Error ''unique constraint violated'')"
    by (simp add: run_defs)
  have r: "tx_Rollback es_unique_fails = Some (Error ''rollback failed'')"
    by (simp add: run_defs)
  have n: "\<not> isSetupNotExecutedError es_unique_fails (Some (Error ''unique constraint violated''))"
    by (simp add: run_defs)
  have h: "(\<exists>evs. fst (writeEvents es_unique_fails [cmd_a] w_known) =
        Return (evs, Some (Error ''unique constraint violated''))) \<or>
      (\<exists>evs. fst (writeEvents es_unique_fails [cmd_a] w_known) = Return (evs, None) \<and>
         (handleUniqueConstraints es_unique_fails [cmd_a] =
            Some (Error ''unique constraint violated'') \<or>
          handleUniqueConstraints es_unique_fails [cmd_a] = None \<and>
            (client_Type es_unique_fails = ''cockroach'' \<and>
               tx_Exec es_unique_fails enable_multiple_modifications =
                 Some (Error ''unique constraint violated'') \<or>
             (client_Type es_unique_fails \<noteq> ''cockroach'' \<or>
                tx_Exec es_unique_fails enable_multiple_modifications = None) \<and>
               handleFieldCommands es_unique_fails [cmd_a] =
                 Some (Error ''unique constraint violated''))))"
    using i u by simp
  from step_error_rolls_back [OF c p b h] n
  have "fst (Eventstore_writeEvents es_unique_fails [cmd_a] w_known) =
       Return ([], Some (Error ''unique constraint violated'')) \<and>
     Push es_unique_fails [cmd_a] w_known = Eventstore_writeEvents es_unique_fails [cmd_a] w_known"
    by simp
  then show ?thesis using c p b i u r by simp
qed

text \<open>
  C1. Counterexample: with a backend on which every step succeeds and \<open>tx.Commit\<close>
  fails, \<open>Push\<close> returns the commit error, not nil.
\<close>

theorem commit_error_not_swallowed:
  "fst (tx_steps es_commit_fails [cmd_a] w_known) =
     Return ([EventPtr \<lparr>command = cmd_a, createdAt = 100, sequence = 1, position = 1\<rparr>], None) \<and>
   tx_Commit es_commit_fails = Some (Error ''commit failed'') \<and>
   fst (Push es_commit_fails [cmd_a] w_known) =
     Return ([EventPtr \<lparr>command = cmd_a, createdAt = 100, sequence = 1, position = 1\<rparr>],
             Some (Error ''commit failed''))"
  by (simp add: run_defs)

text \<open>
  C1, amended. When the insert, constraint, accommodation and projection steps all
  succeeded and \<open>tx.Commit\<close> fails, the commit error is logged as a warning and assigned
  to the named result: the method \<open>writeEvents\<close> returns the events together with the
  commit error, and \<open>Push\<close> returns both to its caller, unless the commit error is
  classified as setup-not-executed, in which case \<open>Push\<close> returns what the fallback returns.
\<close>

theorem commit_error_returned:
  assumes "client_Conn es = None" and "fst (checkExecutionPlan es w) = Return None"
    and "conn_BeginTx es txOptions = None"
    and "fst (tx_steps es cs w) = Return (evs, None)"
    and "tx_Commit es = Some ce"
  shows "fst (Eventstore_writeEvents es cs w) = Return (evs, Some ce) \<and>
     (\<exists>pre. new_ops w (snd (Eventstore_writeEvents es cs w)) =
        pre @ [Commit (Some ce), LogWarn ''failed to commit transaction'' ce, ConnClose]) \<and>
     (\<not> isSetupNotExecutedError es (Some ce) \<longrightarrow> fst (Push es cs w) = Return (evs, Some ce)) \<and>
     (isSetupNotExecutedError es (Some ce) \<longrightarrow> fst (Push es cs w) = pushWithoutFunc es cs)"
proof -
  note r = E_commit_fails(1) [OF assms]
  from E_commit_fails(2) [OF assms] obtain steps where
    n: "new_ops w (snd (Eventstore_writeEvents es cs w)) =
       [Conn, TypeForValue] @ (if type_known w then [] else [RegisterEventstoreTypes])
         @ [BeginTx txOptions] @ steps
         @ [Commit (Some ce), LogWarn ''failed to commit transaction'' ce, ConnClose]"
    by (elim exE conjE)
  have ex: "\<exists>pre. new_ops w (snd (Eventstore_writeEvents es cs w)) =
        pre @ [Commit (Some ce), LogWarn ''failed to commit transaction'' ce, ConnClose]"
    by (rule exI [of _ "[Conn, TypeForValue]
         @ (if type_known w then [] else [RegisterEventstoreTypes])
         @ [BeginTx txOptions] @ steps"]) (simp add: n)
  have a: "\<not> isSetupNotExecutedError es (Some ce) \<longrightarrow> fst (Push es cs w) = Return (evs, Some ce)"
    using Push_primary [OF r] r by simp
  have b: "isSetupNotExecutedError es (Some ce) \<longrightarrow> fst (Push es cs w) = pushWithoutFunc es cs"
    using Push_fallback [OF r] by simp
  from r ex a b show ?thesis by (intro conjI)
qed

theorem commit_error_returned_witness:
  "client_Conn es_commit_fails = None \<and>
   fst (checkExecutionPlan es_commit_fails w_fresh) = Return None \<and>
   conn_BeginTx es_commit_fails txOptions = None \<and>
   fst (tx_steps es_commit_fails [cmd_b] w_fresh) =
     Return ([EventPtr \<lparr>command = cmd_b, createdAt = 100, sequence = 1, position = 1\<rparr>], None) \<and>
   tx_Commit es_commit_fails = Some (Error ''commit failed'') \<and>
   \<not> isSetupNotExecutedError es_commit_fails (Some (Error ''commit failed'')) \<and>
   fst (Push es_commit_fails [cmd_b] w_fresh) =
     Return ([EventPtr \<lparr>command = cmd_b, createdAt = 100, sequence = 1, position = 1\<rparr>],
             Some (Error ''commit failed''))"
proof -
  have c: "client_Conn es_commit_fails = None" by (simp add: run_defs)
  have p: "fst (checkExecutionPlan es_commit_fails w_fresh) = Return None"
    by (simp add: run_defs)
  have b: "conn_BeginTx es_commit_fails txOptions = None" by (simp add: run_defs)
  have st: "fst (tx_steps es_commit_fails [cmd_b] w_fresh) =
     Return ([EventPtr \<lparr>command = cmd_b, createdAt = 100, sequence = 1, position = 1\<rparr>], None)"
    by (simp add: run_defs)
  have cf: "tx_Commit es_commit_fails = Some (Error ''commit failed'')" by (simp add: run_defs)
  have n: "\<not> isSetupNotExecutedError es_commit_fails (Some (Error ''commit failed''))"
    by (simp add: run_defs)
  from commit_error_returned [OF c p b st cf] n
  have "fst (Push es_commit_fails [cmd_b] w_fresh) =
     Return ([EventPtr \<lparr>command = cmd_b, createdAt = 100, sequence = 1, position = 1\<rparr>],
             Some (Error ''commit failed''))"
    by simp
  then show ?thesis using c p b st cf n by simp
qed

text \<open>
  C10. Counterexample: with every step succeeding and \<open>tx.Commit\<close> failing, the method
  \<open>writeEvents\<close> returns an empty slice for the empty batch, and for a batch of two
  commands to which the backend returns no row it returns the two placeholders with none
  of their ordering fields written; the slice is neither non-empty nor fully populated
  in general.
\<close>

theorem commit_failure_slice_empty_or_unpopulated:
  "fst (tx_steps es_commit_fails [] w_known) = Return ([], None) \<and>
   tx_Commit es_commit_fails = Some (Error ''commit failed'') \<and>
   fst (Eventstore_writeEvents es_commit_fails [] w_known) =
     Return ([], Some (Error ''commit failed'')) \<and>
   fst (tx_steps es_silent [cmd_a, cmd_b] w_known) =
     Return ([EventPtr \<lparr>command = cmd_a, createdAt = 0, sequence = 0, position = 0\<rparr>,
              EventPtr \<lparr>command = cmd_b, createdAt = 0, sequence = 0, position = 0\<rparr>], None) \<and>
   tx_Commit es_silent = Some (Error ''commit failed'') \<and>
   fst (Eventstore_writeEvents es_silent [cmd_a, cmd_b] w_known) =
     Return ([EventPtr \<lparr>command = cmd_a, createdAt = 0, sequence = 0, position = 0\<rparr>,
              EventPtr \<lparr>command = cmd_b, createdAt = 0, sequence = 0, position = 0\<rparr>],
             Some (Error ''commit failed''))"
  by (simp add: run_defs)

text \<open>
  C10, amended. When all steps succeed and the deferred \<open>tx.Commit\<close> fails, the method
  \<open>writeEvents\<close> returns the event slice of the insert step together with the commit
  error; no rollback is attempted, and \<open>Push\<close> hands both the events and the error to
  its caller (unless the commit error is classified as setup-not-executed). The slice has
  one element for each placeholder of the translator, so it is empty when there are none;
  it carries the creation timestamp, sequence and position of a row at exactly the indices
  of the rows the backend returned, and the placeholders beyond them are returned as they
  were.
\<close>

theorem commit_failure_returns_slice_and_error:
  assumes "client_Conn es = None" and "fst (checkExecutionPlan es w) = Return None"
    and "conn_BeginTx es txOptions = None"
    and "commandsToEvents es cs = Inr (evs0, cmds)"
    and "tx_QueryContext es (push2Stmt es) cmds = Inr rows"
    and "fst (tx_steps es cs w) = Return (evs, None)"
    and "tx_Commit es = Some ce"
  shows "fst (Eventstore_writeEvents es cs w) = Return (evs, Some ce) \<and>
     length evs = length evs0 \<and> length (scans rows) \<le> length evs0 \<and>
     (\<forall>i<length (scans rows). \<exists>c s p e0.
        scans rows ! i = Inr (c, s, p) \<and> evs0 ! i = EventPtr e0 \<and>
        evs ! i = EventPtr (e0\<lparr>createdAt := c, sequence := s, position := p\<rparr>)) \<and>
     (\<forall>i. length (scans rows) \<le> i \<longrightarrow> evs ! i = evs0 ! i) \<and>
     (\<forall>r. Rollback r \<notin> set (new_ops w (snd (Eventstore_writeEvents es cs w)))) \<and>
     (\<not> isSetupNotExecutedError es (Some ce) \<longrightarrow> fst (Push es cs w) = Return (evs, Some ce))"
proof -
  note r = E_commit_fails(1) [OF assms(1-3) assms(6) assms(7)]
  have ins: "fst (writeEvents es cs w) = Return (evs, None)"
    using tx_steps_ok_inv [OF assms(6)] by simp
  have sc: "fst (scan_rows 0 (scans rows) evs0 w) = Return (evs, None)"
    using writeEvents_ok_inv [OF ins assms(4) assms(5)] by simp
  note len = scan_rows_inv0(1) [OF sc]
  note rl = scan_rows_inv0(2) [OF sc]
  note pop = scan_rows_inv0(3) [OF sc]
  note keep = scan_rows_inv0(4) [OF sc]
  from E_commit_fails(2) [OF assms(1-3) assms(6) assms(7)] obtain steps where
    n: "new_ops w (snd (Eventstore_writeEvents es cs w)) =
       [Conn, TypeForValue] @ (if type_known w then [] else [RegisterEventstoreTypes])
         @ [BeginTx txOptions] @ steps
         @ [Commit (Some ce), LogWarn ''failed to commit transaction'' ce, ConnClose]"
    and sp: "\<forall>x\<in>set steps. phase_of x = Step \<or> phase_of x = Log"
    by (elim exE conjE)
  have nr: "\<forall>r. Rollback r \<notin> set (new_ops w (snd (Eventstore_writeEvents es cs w)))"
  proof
    fix r
    have "Rollback r \<notin> set steps"
    proof
      assume "Rollback r \<in> set steps"
      then have "phase_of (Rollback r) = Step \<or> phase_of (Rollback r) = Log"
        using sp by (rule bspec [rotated])
      then show False by simp
    qed
    then show "Rollback r \<notin> set (new_ops w (snd (Eventstore_writeEvents es cs w)))"
      unfolding n by simp
  qed
  have pu: "\<not> isSetupNotExecutedError es (Some ce) \<longrightarrow> fst (Push es cs w) = Return (evs, Some ce)"
    using Push_primary [OF r] r by simp
  from r len rl pop keep nr pu show ?thesis by (intro conjI)
qed

theorem commit_failure_returns_slice_and_error_witness:
  "client_Conn es_commit_fails = None \<and>
   fst (checkExecutionPlan es_commit_fails w_known) = Return None \<and>
   conn_BeginTx es_commit_fails txOptions = None \<and>
   commandsToEvents es_commit_fails [cmd_a, cmd_b] =
     Inr ([placeholder cmd_a, placeholder cmd_b], [encode cmd_a, encode cmd_b]) \<and>
   tx_QueryContext es_commit_fails (push2Stmt es_commit_fails) [encode cmd_a, encode cmd_b] =
     Inr \<lparr>scans = [Inr (100, 1, 1), Inr (100, 2, 2)], rows_err = None\<rparr> \<and>
   fst (tx_steps es_commit_fails [cmd_a, cmd_b] w_known) =
     Return ([EventPtr \<lparr>command = cmd_a, createdAt = 100, sequence = 1, position = 1\<rparr>,
              EventPtr \<lparr>command = cmd_b, createdAt = 100, sequence = 2, position = 2\<rparr>], None) \<and>
   tx_Commit es_commit_fails = Some (Error ''commit failed'') \<and>
   fst (Eventstore_writeEvents es_commit_fails [cmd_a, cmd_b] w_known) =
     Return ([EventPtr \<lparr>command = cmd_a, createdAt = 100, sequence = 1, position = 1\<rparr>,
              EventPtr \<lparr>command = cmd_b, createdAt = 100, sequence = 2, position = 2\<rparr>],
             Some (Error ''commit failed'')) \<and>
   fst (Push es_commit_fails [cmd_a, cmd_b] w_known) =
     Return ([EventPtr \<lparr>command = cmd_a, createdAt = 100, sequence = 1, position = 1\<rparr>,
              EventPtr \<lparr>command = cmd_b, createdAt = 100, sequence = 2, position = 2\<rparr>],
             Some (Error ''commit failed''))"
proof -
  have c: "client_Conn es_commit_fails = None" by (simp add: run_defs)
  have p: "fst (checkExecutionPlan es_commit_fails w_known) = Return None"
    by (simp add: run_defs)
  have b: "conn_BeginTx es_commit_fails txOptions = None" by (simp add: run_defs)
  have t: "commandsToEvents es_commit_fails [cmd_a, cmd_b] =
     Inr ([placeholder cmd_a, placeholder cmd_b], [encode cmd_a, encode cmd_b])"
    by (simp add: es_commit_fails_def es_ok_def)
  have q: "tx_QueryContext es_commit_fails (push2Stmt es_commit_fails) [encode cmd_a, encode cmd_b] =
     Inr \<lparr>scans = [Inr (100, 1, 1), Inr (100, 2, 2)], rows_err = None\<rparr>"
    by (simp add: es_commit_fails_def es_ok_def)
  have st: "fst (tx_steps es_commit_fails [cmd_a, cmd_b] w_known) =
     Return ([EventPtr \<lparr>command = cmd_a, createdAt = 100, sequence = 1, position = 1\<rparr>,
              EventPtr \<lparr>command = cmd_b, createdAt = 100, sequence = 2, position = 2\<rparr>], None)"
    by (simp add: run_defs)
  have cf: "tx_Commit es_commit_fails = Some (Error ''commit failed'')" by (simp add: run_defs)
  have n: "\<not> isSetupNotExecutedError es_commit_fails (Some (Error ''commit failed''))"
    by (simp add: run_defs)
  from commit_failure_returns_slice_and_error [OF c p b t q st cf] n
  have "fst (Eventstore_writeEvents es_commit_fails [cmd_a, cmd_b] w_known) =
     Return ([EventPtr \<lparr>command = cmd_a, createdAt = 100, sequence = 1, position = 1\<rparr>,
              EventPtr \<lparr>command = cmd_b, createdAt = 100, sequence = 2, position = 2\<rparr>],
             Some (Error ''commit failed'')) \<and>
   fst (Push es_commit_fails [cmd_a, cmd_b] w_known) =
     Return ([EventPtr \<lparr>command = cmd_a, createdAt = 100, sequence = 1, position = 1\<rparr>,
              EventPtr \<lparr>command = cmd_b, createdAt = 100, sequence = 2, position = 2\<rparr>],
             Some (Error ''commit failed''))"
    by simp
  then show ?thesis using c p b t q st cf by simp
qed

text \<open>
  C2. Counterexample: on a backend where every call succeeds, \<open>Push\<close> of the empty batch
  returns no events and no error, but it acquires a connection, begins a transaction and
  executes the bulk-insert statement.
\<close>

theorem empty_batch_runs_insert:
  "fst (Push es_ok [] w_known) = Return ([], None) \<and>
   QueryContext (push2Stmt es_ok) [] \<in> set (new_ops w_known (snd (Push es_ok [] w_known))) \<and>
   new_ops w_known (snd (Push es_ok [] w_known)) =
     [Conn, TypeForValue, BeginTx txOptions, QueryContext (push2Stmt es_ok) [], RowsClose,
      HandleUniqueConstraints [], HandleFieldCommands [], Commit None, ConnClose]"
  by (simp add: run_defs)

text \<open>
  C2, amended. For the empty batch, when the translator yields no placeholders, the
  backend returns no rows and every call succeeds, \<open>Push\<close> returns an empty event
  sequence with no error; it is not a no-op: it acquires a connection, probes it, begins
  a transaction, executes the bulk-insert statement once with the translated payload, runs
  the constraint and projection steps, commits and closes the connection.
\<close>

theorem empty_batch_round_trip:
  assumes "client_Conn es = None" and "fst (checkExecutionPlan es w) = Return None"
    and "conn_BeginTx es txOptions = None"
    and "commandsToEvents es [] = Inr ([], cmds)"
    and "tx_QueryContext es (push2Stmt es) cmds = Inr rows"
    and "scans rows = []" and "rows_err rows = None"
    and "handleUniqueConstraints es [] = None"
    and "client_Type es = ''cockroach'' \<longrightarrow> tx_Exec es enable_multiple_modifications = None"
    and "handleFieldCommands es [] = None"
    and "tx_Commit es = None"
    and "\<not> isSetupNotExecutedError es None"
  shows "fst (Push es [] w) = Return ([], None) \<and>
     new_ops w (snd (Push es [] w)) =
       [Conn, TypeForValue] @ (if type_known w then [] else [RegisterEventstoreTypes])
         @ [BeginTx txOptions, QueryContext (push2Stmt es) cmds, RowsClose,
            HandleUniqueConstraints []]
         @ (if client_Type es = ''cockroach'' then [Exec enable_multiple_modifications] else [])
         @ [HandleFieldCommands [], Commit None, ConnClose]"
proof -
  have ins: "writeEvents es [] v =
      (Return ([], None), emit RowsClose (emit (QueryContext (push2Stmt es) cmds) v))" for v
    using writeEvents_scanned [OF assms(4) assms(5), of v] assms(6) assms(7) by simp
  have ins1: "fst (writeEvents es [] v) = Return ([], None)" for v
    by (simp add: ins)
  have st: "tx_steps es [] v =
      (Return ([], None),
       emit (HandleFieldCommands [])
         ((if client_Type es = ''cockroach''
           then emit (Exec enable_multiple_modifications) else (\<lambda>x. x))
            (emit (HandleUniqueConstraints [])
               (emit RowsClose (emit (QueryContext (push2Stmt es) cmds) v)))))" for v
  proof (cases "client_Type es = ''cockroach''")
    case True
    then have x: "tx_Exec es enable_multiple_modifications = None" using assms(9) by simp
    show ?thesis
      using tx_steps_exec_ok [OF ins1 assms(8) True x, of v] assms(10) True
      by (simp add: ins)
  next
    case False
    show ?thesis
      using tx_steps_no_exec [OF ins1 assms(8) False, of v] assms(10) False
      by (simp add: ins)
  qed
  have st1: "fst (tx_steps es [] w) = Return ([], None)"
    by (simp add: st)
  note E = E_steps_return [OF assms(1-3) st1]
  have r: "fst (Eventstore_writeEvents es [] w) = Return ([], None)"
    using E by (simp add: deferred_tx_commit [OF assms(11)])
  have t: "trace (snd (Eventstore_writeEvents es [] w)) =
     trace w @ [Conn, TypeForValue] @ (if type_known w then [] else [RegisterEventstoreTypes])
         @ [BeginTx txOptions, QueryContext (push2Stmt es) cmds, RowsClose,
            HandleUniqueConstraints []]
         @ (if client_Type es = ''cockroach'' then [Exec enable_multiple_modifications] else [])
         @ [HandleFieldCommands [], Commit None, ConnClose]"
    using E begun_trace [OF assms(2)]
    by (simp add: deferred_tx_commit [OF assms(11)] st)
  have P: "Push es [] w = Eventstore_writeEvents es [] w"
    using Push_primary [OF r assms(12)] .
  show ?thesis using r new_ops_append [OF t] by (simp add: P)
qed

theorem empty_batch_round_trip_witness:
  "client_Conn es_cockroach = None \<and>
   fst (checkExecutionPlan es_cockroach w_fresh) = Return None \<and>
   conn_BeginTx es_cockroach txOptions = None \<and>
   commandsToEvents es_cockroach [] = Inr ([], []) \<and>
   tx_QueryContext es_cockroach (push2Stmt es_cockroach) [] = Inr \<lparr>scans = [], rows_err = None\<rparr> \<and>
   handleUniqueConstraints es_cockroach [] = None \<and>
   tx_Exec es_cockroach enable_multiple_modifications = None \<and>
   handleFieldCommands es_cockroach [] = None \<and>
   tx_Commit es_cockroach = None \<and>
   \<not> isSetupNotExecutedError es_cockroach None \<and>
   fst (Push es_cockroach [] w_fresh) = Return ([], None) \<and>
   new_ops w_fresh (snd (Push es_cockroach [] w_fresh)) =
     [Conn, TypeForValue, RegisterEventstoreTypes, BeginTx txOptions,
      QueryContext (push2Stmt es_cockroach) [], RowsClose, HandleUniqueConstraints [],
      Exec enable_multiple_modifications, HandleFieldCommands [], Commit None, ConnClose]"
proof -
  have c: "client_Conn es_cockroach = None" by (simp add: run_defs)
  have p: "fst (checkExecutionPlan es_cockroach w_fresh) = Return None" by (simp add: run_defs)
  have b: "conn_BeginTx es_cockroach txOptions = None" by (simp add: run_defs)
  have t: "commandsToEvents es_cockroach [] = Inr ([], [])"
    by (simp add: es_cockroach_def es_ok_def)
  have q: "tx_QueryContext es_cockroach (push2Stmt es_cockroach) [] =
      Inr \<lparr>scans = [], rows_err = None\<rparr>"
    by (simp add: es_cockroach_def es_ok_def)
  have s: "scans \<lparr>scans = [], rows_err = None\<rparr> = []" by simp
  have re: "rows_err \<lparr>scans = ([] :: (error + row) list), rows_err = None\<rparr> = None" by simp
  have u: "handleUniqueConstraints es_cockroach [] = None"
    by (simp add: es_cockroach_def es_ok_def)
  have x: "tx_Exec es_cockroach enable_multiple_modifications = None"
    by (simp add: es_cockroach_def es_ok_def)
  have x': "client_Type es_cockroach = ''cockroach'' \<longrightarrow>
      tx_Exec es_cockroach enable_multiple_modifications = None"
    using x by simp
  have f: "handleFieldCommands es_cockroach [] = None"
    by (simp add: es_cockroach_def es_ok_def)
  have cm: "tx_Commit es_cockroach = None" by (simp add: es_cockroach_def es_ok_def)
  have n: "\<not> isSetupNotExecutedError es_cockroach None"
    by (simp add: es_cockroach_def es_ok_def)
  have k: "\<not> type_known w_fresh" by (simp add: w_fresh_def)
  have ty: "client_Type es_cockroach = ''cockroach''" by (simp add: es_cockroach_def es_ok_def)
  from empty_batch_round_trip [OF c p b t q s re u x' f cm n] k ty
  have "fst (Push es_cockroach [] w_fresh) = Return ([], None) \<and>
   new_ops w_fresh (snd (Push es_cockroach [] w_fresh)) =
     [Conn, TypeForValue, RegisterEventstoreTypes, BeginTx txOptions,
      QueryContext (push2Stmt es_cockroach) [], RowsClose, HandleUniqueConstraints [],
      Exec enable_multiple_modifications, HandleFieldCommands [], Commit None, ConnClose]"
    by simp
  then show ?thesis using c p b t q u x f cm n by simp
qed

text \<open>
  C4. Counterexample: the backend answers the bulk insert of two commands with two rows
  that carry the same position; \<open>Push\<close> succeeds and returns two events whose positions
  are equal, not strictly increasing.
\<close>

theorem positions_not_increasing:
  "fst (Push es_flat [cmd_a, cmd_b] w_known) =
     Return ([EventPtr \<lparr>command = cmd_a, createdAt = 100, sequence = 1, position = 7\<rparr>,
              EventPtr \<lparr>command = cmd_b, createdAt = 100, sequence = 2, position = 7\<rparr>], None) \<and>
   \<not> position \<lparr>command = cmd_a, createdAt = 100, sequence = 1, position = 7\<rparr>
       < position \<lparr>command = cmd_b, createdAt = 100, sequence = 2, position = 7\<rparr>"
  by (simp add: run_defs)

text \<open>
  C4, amended. On a successful primary-path \<open>Push\<close> of N commands for which the
  translator yields N placeholders, the returned event sequence has exactly N events in
  the order of the placeholders; the backend returned at most N rows, and for every index
  \<open>i\<close> of a returned row the creation timestamp, sequence and position of that row are
  written onto the \<open>i\<close>-th placeholder, the placeholders beyond the rows being returned
  as they were. The positions of the events are those of the rows: between two scanned
  events position increases exactly when it does between their rows; the code does not
  check it.
\<close>

theorem push_scatters_rows:
  assumes "commandsToEvents es cs = Inr (evs0, cmds)"
    and "length evs0 = length cs"
    and "tx_QueryContext es (push2Stmt es) cmds = Inr rows"
    and "fst (Eventstore_writeEvents es cs w) = Return (evs, None)"
    and "\<not> isSetupNotExecutedError es None"
  shows "fst (Push es cs w) = Return (evs, None) \<and>
     length evs = length cs \<and> length (scans rows) \<le> length cs \<and>
     (\<forall>i<length (scans rows). \<exists>c s p e0.
        scans rows ! i = Inr (c, s, p) \<and> evs0 ! i = EventPtr e0 \<and>
        evs ! i = EventPtr (e0\<lparr>createdAt := c, sequence := s, position := p\<rparr>)) \<and>
     (\<forall>i. length (scans rows) \<le> i \<longrightarrow> evs ! i = evs0 ! i) \<and>
     (\<forall>i j c s p c' s' p' e e'.
        i < length (scans rows) \<and> j < length (scans rows) \<and>
        scans rows ! i = Inr (c, s, p) \<and> scans rows ! j = Inr (c', s', p') \<and>
        evs ! i = EventPtr e \<and> evs ! j = EventPtr e' \<longrightarrow>
        (position e < position e' \<longleftrightarrow> p < p'))"
proof -
  have P: "fst (Push es cs w) = Return (evs, None)"
    using Push_primary [OF assms(4) assms(5)] assms(4) by simp
  have st: "fst (tx_steps es cs w) = Return (evs, None)"
    using E_ok_inv [OF assms(4)] by simp
  have ins: "fst (writeEvents es cs w) = Return (evs, None)"
    using tx_steps_ok_inv [OF st] by simp
  have sc: "fst (scan_rows 0 (scans rows) evs0 w) = Return (evs, None)"
    using writeEvents_ok_inv [OF ins assms(1) assms(3)] by simp
  have len: "length evs = length cs"
    using scan_rows_inv0(1) [OF sc] assms(2) by simp
  have rl: "length (scans rows) \<le> length cs"
    using scan_rows_inv0(2) [OF sc] assms(2) by simp
  note pop = scan_rows_inv0(3) [OF sc]
  note keep = scan_rows_inv0(4) [OF sc]
  have val: "position e = p"
    if "i < length (scans rows)" "scans rows ! i = Inr (c, s, p)" "evs ! i = EventPtr e"
    for i c s p e
  proof -
    from pop that(1) obtain c0 s0 p0 e0 where
      "scans rows ! i = Inr (c0, s0, p0)"
      "evs ! i = EventPtr (e0\<lparr>createdAt := c0, sequence := s0, position := p0\<rparr>)"
      by blast
    with that(2,3) have "p0 = p"
      and "e = e0\<lparr>createdAt := c0, sequence := s0, position := p0\<rparr>" by simp_all
    then show ?thesis by simp
  qed
  have ord: "\<forall>i j c s p c' s' p' e e'.
        i < length (scans rows) \<and> j < length (scans rows) \<and>
        scans rows ! i = Inr (c, s, p) \<and> scans rows ! j = Inr (c', s', p') \<and>
        evs ! i = EventPtr e \<and> evs ! j = EventPtr e' \<longrightarrow>
        (position e < position e' \<longleftrightarrow> p < p')"
  proof (intro allI impI)
    fix i j c s p c' s' p' e e'
    assume h: "i < length (scans rows) \<and> j < length (scans rows) \<and>
        scans rows ! i = Inr (c, s, p) \<and> scans rows ! j = Inr (c', s', p') \<and>
        evs ! i = EventPtr e \<and> evs ! j = EventPtr e'"
    have "position e = p" using h val [of i c s p e] by simp
    moreover have "position e' = p'" using h val [of j c' s' p' e'] by simp
    ultimately show "position e < position e' \<longleftrightarrow> p < p'" by simp
  qed
  from P len rl pop keep ord show ?thesis by (intro conjI)
qed

theorem push_scatters_rows_witness:
  "commandsToEvents es_ok [cmd_a, cmd_b] =
     Inr ([placeholder cmd_a, placeholder cmd_b], [encode cmd_a, encode cmd_b]) \<and>
   length [placeholder cmd_a, placeholder cmd_b] = length [cmd_a, cmd_b] \<and>
   tx_QueryContext es_ok (push2Stmt es_ok) [encode cmd_a, encode cmd_b] =
     Inr \<lparr>scans = [Inr (100, 1, 1), Inr (100, 2, 2)], rows_err = None\<rparr> \<and>
   fst (Eventstore_writeEvents es_ok [cmd_a, cmd_b] w_known) =
     Return ([EventPtr \<lparr>command = cmd_a, createdAt = 100, sequence = 1, position = 1\<rparr>,
              EventPtr \<lparr>command = cmd_b, createdAt = 100, sequence = 2, position = 2\<rparr>], None) \<and>
   \<not> isSetupNotExecutedError es_ok None \<and>
   fst (Push es_ok [cmd_a, cmd_b] w_known) =
     Return ([EventPtr \<lparr>command = cmd_a, createdAt = 100, sequence = 1, position = 1\<rparr>,
              EventPtr \<lparr>command = cmd_b, createdAt = 100, sequence = 2, position = 2\<rparr>], None) \<and>
   length [EventPtr \<lparr>command = cmd_a, createdAt = 100, sequence = 1, position = 1\<rparr>,
           EventPtr \<lparr>command = cmd_b, createdAt = 100, sequence = 2, position = 2\<rparr>] =
     length [cmd_a, cmd_b]"
proof -
  have t: "commandsToEvents es_ok [cmd_a, cmd_b] =
     Inr ([placeholder cmd_a, placeholder cmd_b], [encode cmd_a, encode cmd_b])"
    by (simp add: es_ok_def)
  have l: "length [placeholder cmd_a, placeholder cmd_b] = length [cmd_a, cmd_b]" by simp
  have q: "tx_QueryContext es_ok (push2Stmt es_ok) [encode cmd_a, encode cmd_b] =
     Inr \<lparr>scans = [Inr (100, 1, 1), Inr (100, 2, 2)], rows_err = None\<rparr>"
    by (simp add: es_ok_def)
  have r: "fst (Eventstore_writeEvents es_ok [cmd_a, cmd_b] w_known) =
     Return ([EventPtr \<lparr>command = cmd_a, createdAt = 100, sequence = 1, position = 1\<rparr>,
              EventPtr \<lparr>command = cmd_b, createdAt = 100, sequence = 2, position = 2\<rparr>], None)"
    by (simp add: run_defs)
  have n: "\<not> isSetupNotExecutedError es_ok None" by (simp add: es_ok_def)
  from push_scatters_rows [OF t l q r n]
  have "fst (Push es_ok [cmd_a, cmd_b] w_known) =
     Return ([EventPtr \<lparr>command = cmd_a, createdAt = 100, sequence = 1, position = 1\<rparr>,
              EventPtr \<lparr>command = cmd_b, createdAt = 100, sequence = 2, position = 2\<rparr>], None) \<and>
   length [EventPtr \<lparr>command = cmd_a, createdAt = 100, sequence = 1, position = 1\<rparr>,
           EventPtr \<lparr>command = cmd_b, createdAt = 100, sequence = 2, position = 2\<rparr>] =
     length [cmd_a, cmd_b]"
    by (elim conjE) (intro conjI)
  then show ?thesis using t l q r n by (intro conjI) simp_all
qed

text \<open>
  C9. The row-scan loop of \<open>writeEvents\<close> indexes the event slice with the row counter
  and asserts each element to \<open>*event\<close> without a check of its own. When the translator
  yields as many events as there are commands, none of another dynamic type, and the
  backend returns at most as many rows as there are commands, the insert step raises no
  index-out-of-range and no type-assertion panic. The precondition is what keeps it safe:
  with rows that all scan, one row more than there are events makes it panic with an index
  out of range, and an element of another type within the rows makes it panic in the type
  assertion.
\<close>

theorem scan_panic_free_under_precondition:
  "(commandsToEvents es cs = Inr (evs, cmds) \<and>
    tx_QueryContext es (push2Stmt es) cmds = Inr rows \<and>
    length evs = length cs \<and> (\<forall>ev\<in>set evs. ev \<noteq> OtherEvent) \<and>
    length (scans rows) \<le> length cs \<longrightarrow>
      (\<forall>a b. fst (writeEvents es cs w) \<noteq> Panic (IndexOutOfRange a b)) \<and>
      fst (writeEvents es cs w) \<noteq> Panic InterfaceConversion) \<and>
   (commandsToEvents es cs = Inr (evs, cmds) \<and>
    tx_QueryContext es (push2Stmt es) cmds = Inr rows \<and>
    (\<forall>r\<in>set (scans rows). \<exists>v. r = Inr v) \<and> (\<forall>ev\<in>set evs. \<exists>e. ev = EventPtr e) \<and>
    length evs < length (scans rows) \<longrightarrow>
      fst (writeEvents es cs w) = Panic (IndexOutOfRange (length evs) (length evs))) \<and>
   (commandsToEvents es cs = Inr (evs, cmds) \<and>
    tx_QueryContext es (push2Stmt es) cmds = Inr rows \<and>
    (\<forall>r\<in>set (scans rows). \<exists>v. r = Inr v) \<and>
    k < length (scans rows) \<and> k < length evs \<and> evs ! k = OtherEvent \<and>
    (\<forall>j<k. \<exists>e. evs ! j = EventPtr e) \<longrightarrow>
      fst (writeEvents es cs w) = Panic InterfaceConversion)"
proof (intro conjI impI)
  assume h: "commandsToEvents es cs = Inr (evs, cmds) \<and>
    tx_QueryContext es (push2Stmt es) cmds = Inr rows \<and>
    length evs = length cs \<and> (\<forall>ev\<in>set evs. ev \<noteq> OtherEvent) \<and>
    length (scans rows) \<le> length cs"
  then have t: "commandsToEvents es cs = Inr (evs, cmds)"
    and q: "tx_QueryContext es (push2Stmt es) cmds = Inr rows"
    and l: "0 + length (scans rows) \<le> length evs"
    and o: "\<forall>ev\<in>set evs. ev \<noteq> OtherEvent" by simp_all
  have o': "\<forall>j. 0 \<le> j \<and> j < 0 + length (scans rows) \<longrightarrow> evs ! j \<noteq> OtherEvent"
    using o l by simp
  note safe = scan_rows_safe [OF l o', of w]
  show "\<forall>a b. fst (writeEvents es cs w) \<noteq> Panic (IndexOutOfRange a b)"
    using safe by (simp add: writeEvents_panic_iff [OF t q])
  show "fst (writeEvents es cs w) \<noteq> Panic InterfaceConversion"
    using safe by (simp add: writeEvents_panic_iff [OF t q])
next
  assume h: "commandsToEvents es cs = Inr (evs, cmds) \<and>
    tx_QueryContext es (push2Stmt es) cmds = Inr rows \<and>
    (\<forall>r\<in>set (scans rows). \<exists>v. r = Inr v) \<and> (\<forall>ev\<in>set evs. \<exists>e. ev = EventPtr e) \<and>
    length evs < length (scans rows)"
  then have t: "commandsToEvents es cs = Inr (evs, cmds)"
    and q: "tx_QueryContext es (push2Stmt es) cmds = Inr rows"
    and r: "\<forall>r\<in>set (scans rows). \<exists>v. r = Inr v"
    and e: "\<forall>ev\<in>set evs. \<exists>e. ev = EventPtr e"
    and l: "length evs < 0 + length (scans rows)" by simp_all
  have e': "\<forall>j. 0 \<le> j \<and> j < length evs \<longrightarrow> (\<exists>e. evs ! j = EventPtr e)"
    using e by simp
  have "fst (scan_rows 0 (scans rows) evs w) = Panic (IndexOutOfRange (length evs) (length evs))"
    by (rule scan_rows_overrun [OF r e' _ l]) simp
  then show "fst (writeEvents es cs w) = Panic (IndexOutOfRange (length evs) (length evs))"
    by (simp add: writeEvents_panic_iff [OF t q])
next
  assume h: "commandsToEvents es cs = Inr (evs, cmds) \<and>
    tx_QueryContext es (push2Stmt es) cmds = Inr rows \<and>
    (\<forall>r\<in>set (scans rows). \<exists>v. r = Inr v) \<and>
    k < length (scans rows) \<and> k < length evs \<and> evs ! k = OtherEvent \<and>
    (\<forall>j<k. \<exists>e. evs ! j = EventPtr e)"
  then have t: "commandsToEvents es cs = Inr (evs, cmds)"
    and q: "tx_QueryContext es (push2Stmt es) cmds = Inr rows"
    and r: "\<forall>r\<in>set (scans rows). \<exists>v. r = Inr v"
    and k1: "k < 0 + length (scans rows)" and k2: "k < length evs"
    and f: "evs ! k = OtherEvent"
    and e: "\<forall>j<k. \<exists>e. evs ! j = EventPtr e" by simp_all
  have e': "\<forall>j. 0 \<le> j \<and> j < k \<longrightarrow> (\<exists>e. evs ! j = EventPtr e)"
    using e by simp
  have "fst (scan_rows 0 (scans rows) evs w) = Panic InterfaceConversion"
    by (rule scan_rows_foreign [OF r _ k1 k2 f e']) simp
  then show "fst (writeEvents es cs w) = Panic InterfaceConversion"
    by (simp add: writeEvents_panic_iff [OF t q])
qed


theorem scan_panic_free_under_precondition_witness:
  "commandsToEvents es_ok [cmd_a, cmd_b] =
     Inr ([placeholder cmd_a, placeholder cmd_b], [encode cmd_a, encode cmd_b]) \<and>
   tx_QueryContext es_ok (push2Stmt es_ok) [encode cmd_a, encode cmd_b] =
     Inr \<lparr>scans = [Inr (100, 1, 1), Inr (100, 2, 2)], rows_err = None\<rparr> \<and>
   fst (writeEvents es_ok [cmd_a, cmd_b] w_known) \<noteq> Panic (IndexOutOfRange 2 2) \<and>
   fst (writeEvents es_ok [cmd_a, cmd_b] w_known) \<noteq> Panic InterfaceConversion \<and>
   commandsToEvents es_flat [cmd_a] = Inr ([placeholder cmd_a], [encode cmd_a]) \<and>
   tx_QueryContext es_flat (push2Stmt es_flat) [encode cmd_a] =
     Inr \<lparr>scans = [Inr (100, 1, 7), Inr (100, 2, 7)], rows_err = None\<rparr> \<and>
   fst (writeEvents es_flat [cmd_a] w_known) = Panic (IndexOutOfRange 1 1) \<and>
   commandsToEvents es_foreign [cmd_a] = Inr ([OtherEvent], [encode cmd_a]) \<and>
   tx_QueryContext es_foreign (push2Stmt es_foreign) [encode cmd_a] =
     Inr \<lparr>scans = [Inr (100, 1, 1)], rows_err = None\<rparr> \<and>
   fst (writeEvents es_foreign [cmd_a] w_known) = Panic InterfaceConversion"
proof -
  have t1: "commandsToEvents es_ok [cmd_a, cmd_b] =
     Inr ([placeholder cmd_a, placeholder cmd_b], [encode cmd_a, encode cmd_b])"
    by (simp add: es_ok_def)
  have q1: "tx_QueryContext es_ok (push2Stmt es_ok) [encode cmd_a, encode cmd_b] =
     Inr \<lparr>scans = [Inr (100, 1, 1), Inr (100, 2, 2)], rows_err = None\<rparr>"
    by (simp add: es_ok_def)
  have h1: "length [placeholder cmd_a, placeholder cmd_b] = length [cmd_a, cmd_b] \<and>
      (\<forall>ev\<in>set [placeholder cmd_a, placeholder cmd_b]. ev \<noteq> OtherEvent) \<and>
      length (scans \<lparr>scans = [Inr (100, 1, 1), Inr (100, 2, 2) :: error + row], rows_err = None\<rparr>)
        \<le> length [cmd_a, cmd_b]"
    by (simp add: placeholder_def)
  from scan_panic_free_under_precondition
    [where es = es_ok and cs = "[cmd_a, cmd_b]"
       and evs = "[placeholder cmd_a, placeholder cmd_b]"
       and cmds = "[encode cmd_a, encode cmd_b]"
       and rows = "\<lparr>scans = [Inr (100, 1, 1), Inr (100, 2, 2)], rows_err = None\<rparr>"
       and w = w_known]
    t1 q1 h1
  have a: "fst (writeEvents es_ok [cmd_a, cmd_b] w_known) \<noteq> Panic (IndexOutOfRange 2 2) \<and>
     fst (writeEvents es_ok [cmd_a, cmd_b] w_known) \<noteq> Panic InterfaceConversion"
    by blast
  have t2: "commandsToEvents es_flat [cmd_a] = Inr ([placeholder cmd_a], [encode cmd_a])"
    by (simp add: es_flat_def es_ok_def)
  have q2: "tx_QueryContext es_flat (push2Stmt es_flat) [encode cmd_a] =
     Inr \<lparr>scans = [Inr (100, 1, 7), Inr (100, 2, 7)], rows_err = None\<rparr>"
    by (simp add: es_flat_def es_ok_def)
  have h2: "(\<forall>r\<in>set (scans \<lparr>scans = [Inr (100, 1, 7), Inr (100, 2, 7) :: error + row],
                 rows_err = None\<rparr>). \<exists>v. r = Inr v) \<and>
      (\<forall>ev\<in>set [placeholder cmd_a]. \<exists>e. ev = EventPtr e) \<and>
      length [placeholder cmd_a] <
        length (scans \<lparr>scans = [Inr (100, 1, 7), Inr (100, 2, 7) :: error + row],
                 rows_err = None\<rparr>)"
    by (simp add: placeholder_def)
  from scan_panic_free_under_precondition
    [where es = es_flat and cs = "[cmd_a]" and evs = "[placeholder cmd_a]"
       and cmds = "[encode cmd_a]"
       and rows = "\<lparr>scans = [Inr (100, 1, 7), Inr (100, 2, 7)], rows_err = None\<rparr>"
       and w = w_known]
    t2 q2 h2
  have "fst (writeEvents es_flat [cmd_a] w_known) =
      Panic (IndexOutOfRange (length [placeholder cmd_a]) (length [placeholder cmd_a]))"
    by blast
  then have b: "fst (writeEvents es_flat [cmd_a] w_known) = Panic (IndexOutOfRange 1 1)"
    by simp
  have t3: "commandsToEvents es_foreign [cmd_a] = Inr ([OtherEvent], [encode cmd_a])"
    by (simp add: es_foreign_def es_ok_def)
  have q3: "tx_QueryContext es_foreign (push2Stmt es_foreign) [encode cmd_a] =
     Inr \<lparr>scans = [Inr (100, 1, 1)], rows_err = None\<rparr>"
    by (simp add: es_foreign_def es_ok_def)
  have h3: "(\<forall>r\<in>set (scans \<lparr>scans = [Inr (100, 1, 1) :: error + row], rows_err = None\<rparr>).
         \<exists>v. r = Inr v) \<and>
      0 < length (scans \<lparr>scans = [Inr (100, 1, 1) :: error + row], rows_err = None\<rparr>) \<and>
      0 < length [OtherEvent] \<and> [OtherEvent] ! 0 = OtherEvent \<and>
      (\<forall>j<0. \<exists>e. [OtherEvent] ! j = EventPtr e)"
    by simp
  from scan_panic_free_under_precondition
    [where es = es_foreign and cs = "[cmd_a]" and evs = "[OtherEvent]"
       and cmds = "[encode cmd_a]"
       and rows = "\<lparr>scans = [Inr (100, 1, 1)], rows_err = None\<rparr>"
       and w = w_known and k = 0]
    t3 q3 h3
  have c: "fst (writeEvents es_foreign [cmd_a] w_known) = Panic InterfaceConversion"
    by blast
  from t1 q1 a t2 q2 b t3 q3 c show ?thesis by (intro conjI) simp_all
qed

text \<open>
  C6. \<open>checkExecutionPlan\<close> registers the eventstore types only when the type map of the
  connection does not know the command type: with the type present it returns nil after
  the lookup alone and leaves the connection as it is, so a \<open>Push\<close> on a connection that
  knows the type performs no registration and leaves the type known, and neither does a
  second \<open>Push\<close> after it. With the type absent it calls \<open>registerEventstoreTypes\<close> once
  and returns its result. Whenever \<open>Push\<close> begins a transaction, the probe (lookup and
  possible registration) comes before \<open>BeginTx\<close> and no probe call follows it.
\<close>

theorem probe_idempotent:
  "(driverConn es = StdlibConn \<and> type_known w \<longrightarrow>
      checkExecutionPlan es w = (Return None, emit TypeForValue w)) \<and>
   (driverConn es = StdlibConn \<and> \<not> type_known w \<longrightarrow>
      checkExecutionPlan es w =
        (Return (fst (registerEventstoreTypes es False)),
         (emit RegisterEventstoreTypes (emit TypeForValue w))
           \<lparr>type_known := snd (registerEventstoreTypes es False)\<rparr>)) \<and>
   (type_known w \<longrightarrow>
      RegisterEventstoreTypes \<notin> set (new_ops w (snd (Push es cs w))) \<and>
      type_known (snd (Push es cs w))) \<and>
   (type_known (snd (Push es cs w)) \<longrightarrow>
      RegisterEventstoreTypes \<notin>
        set (new_ops (snd (Push es cs w)) (snd (Push es' cs' (snd (Push es cs w)))))) \<and>
   (\<forall>opts. BeginTx opts \<in> set (new_ops w (snd (Push es cs w))) \<longrightarrow>
      (\<exists>post. new_ops w (snd (Push es cs w)) =
          [Conn, TypeForValue] @ (if type_known w then [] else [RegisterEventstoreTypes])
            @ BeginTx txOptions # post \<and>
        (\<forall>x\<in>set post. phase_of x \<noteq> Probe)))"
proof (intro conjI impI allI)
  assume "driverConn es = StdlibConn \<and> type_known w"
  then show "checkExecutionPlan es w = (Return None, emit TypeForValue w)"
    by (simp add: checkExecutionPlan_known)
next
  assume "driverConn es = StdlibConn \<and> \<not> type_known w"
  then show "checkExecutionPlan es w =
        (Return (fst (registerEventstoreTypes es False)),
         (emit RegisterEventstoreTypes (emit TypeForValue w))
           \<lparr>type_known := snd (registerEventstoreTypes es False)\<rparr>)"
    by (simp add: checkExecutionPlan_unknown)
next
  assume "type_known w"
  then show "RegisterEventstoreTypes \<notin> set (new_ops w (snd (Push es cs w)))"
    using Push_keeps_known [of w es cs] by simp
next
  assume "type_known w"
  then show "type_known (snd (Push es cs w))"
    using Push_keeps_known [of w es cs] by simp
next
  assume "type_known (snd (Push es cs w))"
  then show "RegisterEventstoreTypes \<notin>
        set (new_ops (snd (Push es cs w)) (snd (Push es' cs' (snd (Push es cs w)))))"
    using Push_keeps_known [of "snd (Push es cs w)" es' cs'] by simp
next
  fix opts
  assume bg: "BeginTx opts \<in> set (new_ops w (snd (Push es cs w)))"
  obtain ops where n: "new_ops w (snd (Eventstore_writeEvents es cs w)) = ops"
    and b: "\<forall>opts. BeginTx opts \<in> set ops \<longrightarrow>
        (\<exists>post. ops = [Conn, TypeForValue]
            @ (if type_known w then [] else [RegisterEventstoreTypes])
            @ BeginTx txOptions # post \<and>
          (\<forall>x\<in>set post. phase_of x \<noteq> Probe \<and> phase_of x \<noteq> Begin))"
    by (rule E_ops [of es cs w])
  let ?fb = "if \<exists>evs err. fst (Eventstore_writeEvents es cs w) = Return (evs, err) \<and>
           isSetupNotExecutedError es err
      then [PushWithoutFunc cs] else []"
  have pn: "new_ops w (snd (Push es cs w)) = ops @ ?fb"
    by (simp add: Push_new_ops n)
  have "BeginTx opts \<in> set ops"
    using bg unfolding pn by (auto split: if_splits)
  with b obtain post where ops: "ops = [Conn, TypeForValue]
            @ (if type_known w then [] else [RegisterEventstoreTypes])
            @ BeginTx txOptions # post"
    and post: "\<forall>x\<in>set post. phase_of x \<noteq> Probe \<and> phase_of x \<noteq> Begin"
    by blast
  have fbp: "\<forall>x\<in>set ?fb. phase_of x \<noteq> Probe" by simp
  show "\<exists>post. new_ops w (snd (Push es cs w)) =
          [Conn, TypeForValue] @ (if type_known w then [] else [RegisterEventstoreTypes])
            @ BeginTx txOptions # post \<and>
        (\<forall>x\<in>set post. phase_of x \<noteq> Probe)"
  proof (intro exI [of _ "post @ ?fb"] conjI)
    show "new_ops w (snd (Push es cs w)) =
          [Conn, TypeForValue] @ (if type_known w then [] else [RegisterEventstoreTypes])
            @ BeginTx txOptions # post @ ?fb"
      unfolding pn by (subst ops) simp
    show "\<forall>x\<in>set (post @ ?fb). phase_of x \<noteq> Probe"
      using post fbp by (simp add: ball_Un)
  qed
qed


theorem probe_idempotent_witness:
  "driverConn es_ok = StdlibConn \<and> type_known w_known \<and> \<not> type_known w_fresh \<and>
   checkExecutionPlan es_ok w_known = (Return None, emit TypeForValue w_known) \<and>
   checkExecutionPlan es_ok w_fresh =
     (Return (fst (registerEventstoreTypes es_ok False)),
      (emit RegisterEventstoreTypes (emit TypeForValue w_fresh))
        \<lparr>type_known := snd (registerEventstoreTypes es_ok False)\<rparr>) \<and>
   RegisterEventstoreTypes \<notin> set (new_ops w_known (snd (Push es_ok [cmd_a] w_known))) \<and>
   type_known (snd (Push es_ok [cmd_a] w_fresh)) \<and>
   RegisterEventstoreTypes \<notin>
     set (new_ops (snd (Push es_ok [cmd_a] w_fresh))
           (snd (Push es_ok [cmd_b] (snd (Push es_ok [cmd_a] w_fresh)))))"
proof -
  have d: "driverConn es_ok = StdlibConn" by (simp add: es_ok_def)
  have k: "type_known w_known" by (simp add: w_known_def)
  have f: "\<not> type_known w_fresh" by (simp add: w_fresh_def)
  have a: "type_known (snd (Push es_ok [cmd_a] w_fresh))" by (simp add: run_defs)
  from probe_idempotent [where es = es_ok and w = w_known and cs = "[cmd_a]"] d k
  have 1: "checkExecutionPlan es_ok w_known = (Return None, emit TypeForValue w_known) \<and>
     RegisterEventstoreTypes \<notin> set (new_ops w_known (snd (Push es_ok [cmd_a] w_known)))"
    by blast
  from probe_idempotent [where es = es_ok and w = w_fresh and cs = "[cmd_a]"
      and es' = es_ok and cs' = "[cmd_b]"] d f a
  have 2: "checkExecutionPlan es_ok w_fresh =
     (Return (fst (registerEventstoreTypes es_ok False)),
      (emit RegisterEventstoreTypes (emit TypeForValue w_fresh))
        \<lparr>type_known := snd (registerEventstoreTypes es_ok False)\<rparr>) \<and>
   RegisterEventstoreTypes \<notin>
     set (new_ops (snd (Push es_ok [cmd_a] w_fresh))
           (snd (Push es_ok [cmd_b] (snd (Push es_ok [cmd_a] w_fresh)))))"
    by blast
  from d k f a 1 2 show ?thesis by (intro conjI) simp_all
qed

text \<open>
  C7. The statement \<open>SET enable_multiple_modifications_of_table = on\<close> is the only
  statement \<open>Push\<close> executes with \<open>tx.Exec\<close>, and it executes it only when the type of
  the client is \<open>cockroach\<close>. When the insert and the unique-constraint step have
  succeeded, it is executed exactly when the type is \<open>cockroach\<close>, inside the
  transaction: after \<open>BeginTx\<close>, directly after the unique-constraint step, before the
  field-projection step (which is skipped when the statement fails) and before the commit
  or rollback. For any other type no statement is issued between the two steps.
\<close>

theorem cockroach_setting:
  "(\<forall>stmt. Exec stmt \<in> set (new_ops w (snd (Push es cs w))) \<longrightarrow>
      client_Type es = ''cockroach'' \<and> stmt = enable_multiple_modifications) \<and>
   (client_Conn es = None \<and> fst (checkExecutionPlan es w) = Return None \<and>
    conn_BeginTx es txOptions = None \<and> fst (writeEvents es cs w) = Return (evs, None) \<and>
    handleUniqueConstraints es cs = None \<longrightarrow>
      (\<exists>cmds fin. new_ops w (snd (Eventstore_writeEvents es cs w)) =
          [Conn, TypeForValue] @ (if type_known w then [] else [RegisterEventstoreTypes])
          @ [BeginTx txOptions, QueryContext (push2Stmt es) cmds, RowsClose,
             HandleUniqueConstraints cs]
          @ (if client_Type es = ''cockroach'' then [Exec enable_multiple_modifications] else [])
          @ (if client_Type es = ''cockroach'' \<and> tx_Exec es enable_multiple_modifications \<noteq> None
             then [] else [HandleFieldCommands cs])
          @ fin @ [ConnClose] \<and>
        (\<forall>x\<in>set fin. phase_of x = Conclude \<or> phase_of x = Log)))"
proof (intro conjI impI allI)
  fix stmt
  assume ex: "Exec stmt \<in> set (new_ops w (snd (Push es cs w)))"
  obtain ops where n: "new_ops w (snd (Eventstore_writeEvents es cs w)) = ops"
    and x: "\<forall>stmt. Exec stmt \<in> set ops \<longrightarrow>
        client_Type es = ''cockroach'' \<and> stmt = enable_multiple_modifications"
    by (rule E_ops [of es cs w])
  have "Exec stmt \<in> set ops"
    using ex by (auto simp: Push_new_ops n split: if_splits)
  with x show "client_Type es = ''cockroach''" and "stmt = enable_multiple_modifications"
    by simp_all
next
  assume h: "client_Conn es = None \<and> fst (checkExecutionPlan es w) = Return None \<and>
    conn_BeginTx es txOptions = None \<and> fst (writeEvents es cs w) = Return (evs, None) \<and>
    handleUniqueConstraints es cs = None"
  then have c: "client_Conn es = None" and p: "fst (checkExecutionPlan es w) = Return None"
    and b: "conn_BeginTx es txOptions = None"
    and i: "fst (writeEvents es cs w) = Return (evs, None)"
    and u: "handleUniqueConstraints es cs = None" by simp_all
  from writeEvents_ok_world [OF i] obtain cmds where ins': "\<forall>v. writeEvents es cs v =
       (Return (evs, None), emit RowsClose (emit (QueryContext (push2Stmt es) cmds) v))" ..
  have ins: "writeEvents es cs v =
       (Return (evs, None), emit RowsClose (emit (QueryContext (push2Stmt es) cmds) v))" for v
    using ins' by simp
  let ?steps = "[QueryContext (push2Stmt es) cmds, RowsClose, HandleUniqueConstraints cs]
       @ (if client_Type es = ''cockroach'' then [Exec enable_multiple_modifications] else [])
       @ (if client_Type es = ''cockroach'' \<and> tx_Exec es enable_multiple_modifications \<noteq> None
          then [] else [HandleFieldCommands cs])"
  have st: "trace (snd (tx_steps es cs (begun es w))) = trace (begun es w) @ ?steps"
    using tx_steps_after_unique [OF ins u, of "begun es w"] by simp
  from E_opened_trace [OF c p b, of cs] obtain steps fin where
    t: "trace (snd (Eventstore_writeEvents es cs w)) =
       trace w @ [Conn, TypeForValue] @ (if type_known w then [] else [RegisterEventstoreTypes])
         @ [BeginTx txOptions] @ steps @ fin @ [ConnClose]"
    and s: "trace (snd (tx_steps es cs (begun es w))) = trace (begun es w) @ steps"
    and fp: "\<forall>x\<in>set fin. phase_of x = Conclude \<or> phase_of x = Log"
    by blast
  have eq: "steps = ?steps" using s st by simp
  have n: "new_ops w (snd (Eventstore_writeEvents es cs w)) =
       [Conn, TypeForValue] @ (if type_known w then [] else [RegisterEventstoreTypes])
         @ [BeginTx txOptions] @ ?steps @ fin @ [ConnClose]"
    using new_ops_append [OF t] unfolding eq .
  show "\<exists>cmds fin. new_ops w (snd (Eventstore_writeEvents es cs w)) =
          [Conn, TypeForValue] @ (if type_known w then [] else [RegisterEventstoreTypes])
          @ [BeginTx txOptions, QueryContext (push2Stmt es) cmds, RowsClose,
             HandleUniqueConstraints cs]
          @ (if client_Type es = ''cockroach'' then [Exec enable_multiple_modifications] else [])
          @ (if client_Type es = ''cockroach'' \<and> tx_Exec es enable_multiple_modifications \<noteq> None
             then [] else [HandleFieldCommands cs])
          @ fin @ [ConnClose] \<and>
        (\<forall>x\<in>set fin. phase_of x = Conclude \<or> phase_of x = Log)"
  proof (intro exI [of _ cmds] exI [of _ fin] conjI)
    show "new_ops w (snd (Eventstore_writeEvents es cs w)) =
          [Conn, TypeForValue] @ (if type_known w then [] else [RegisterEventstoreTypes])
          @ [BeginTx txOptions, QueryContext (push2Stmt es) cmds, RowsClose,
             HandleUniqueConstraints cs]
          @ (if client_Type es = ''cockroach'' then [Exec enable_multiple_modifications] else [])
          @ (if client_Type es = ''cockroach'' \<and> tx_Exec es enable_multiple_modifications \<noteq> None
             then [] else [HandleFieldCommands cs])
          @ fin @ [ConnClose]"
      unfolding n by simp
    show "\<forall>x\<in>set fin. phase_of x = Conclude \<or> phase_of x = Log" by (rule fp)
  qed
qed


theorem cockroach_setting_witness:
  "client_Conn es_cockroach = None \<and>
   fst (checkExecutionPlan es_cockroach w_known) = Return None \<and>
   conn_BeginTx es_cockroach txOptions = None \<and>
   fst (writeEvents es_cockroach [cmd_a] w_known) =
     Return ([EventPtr \<lparr>command = cmd_a, createdAt = 100, sequence = 1, position = 1\<rparr>], None) \<and>
   handleUniqueConstraints es_cockroach [cmd_a] = None \<and>
   client_Type es_cockroach = ''cockroach'' \<and>
   (\<exists>cmds fin. new_ops w_known (snd (Eventstore_writeEvents es_cockroach [cmd_a] w_known)) =
      [Conn, TypeForValue, BeginTx txOptions, QueryContext (push2Stmt es_cockroach) cmds,
       RowsClose, HandleUniqueConstraints [cmd_a], Exec enable_multiple_modifications,
       HandleFieldCommands [cmd_a]] @ fin @ [ConnClose]) \<and>
   client_Type es_ok \<noteq> ''cockroach'' \<and>
   Exec enable_multiple_modifications \<notin> set (new_ops w_known (snd (Push es_ok [cmd_a] w_known)))"
proof -
  have c: "client_Conn es_cockroach = None" by (simp add: run_defs)
  have p: "fst (checkExecutionPlan es_cockroach w_known) = Return None" by (simp add: run_defs)
  have b: "conn_BeginTx es_cockroach txOptions = None" by (simp add: run_defs)
  have i: "fst (writeEvents es_cockroach [cmd_a] w_known) =
     Return ([EventPtr \<lparr>command = cmd_a, createdAt = 100, sequence = 1, position = 1\<rparr>], None)"
    by (simp add: run_defs)
  have u: "handleUniqueConstraints es_cockroach [cmd_a] = None"
    by (simp add: es_cockroach_def es_ok_def)
  have ty: "client_Type es_cockroach = ''cockroach''" by (simp add: es_cockroach_def es_ok_def)
  have x: "tx_Exec es_cockroach enable_multiple_modifications = None"
    by (simp add: es_cockroach_def es_ok_def)
  have k: "type_known w_known" by (simp add: w_known_def)
  have no: "client_Type es_ok \<noteq> ''cockroach''" by (simp add: es_ok_def)
  from cockroach_setting [where es = es_cockroach and cs = "[cmd_a]" and w = w_known
      and evs = "[EventPtr \<lparr>command = cmd_a, createdAt = 100, sequence = 1, position = 1\<rparr>]"]
    c p b i u
  obtain cmds fin where
    "new_ops w_known (snd (Eventstore_writeEvents es_cockroach [cmd_a] w_known)) =
          [Conn, TypeForValue] @ (if type_known w_known then [] else [RegisterEventstoreTypes])
          @ [BeginTx txOptions, QueryContext (push2Stmt es_cockroach) cmds, RowsClose,
             HandleUniqueConstraints [cmd_a]]
          @ (if client_Type es_cockroach = ''cockroach''
             then [Exec enable_multiple_modifications] else [])
          @ (if client_Type es_cockroach = ''cockroach'' \<and>
                tx_Exec es_cockroach enable_multiple_modifications \<noteq> None
             then [] else [HandleFieldCommands [cmd_a]])
          @ fin @ [ConnClose]"
    by blast
  then have "new_ops w_known (snd (Eventstore_writeEvents es_cockroach [cmd_a] w_known)) =
      [Conn, TypeForValue, BeginTx txOptions, QueryContext (push2Stmt es_cockroach) cmds,
       RowsClose, HandleUniqueConstraints [cmd_a], Exec enable_multiple_modifications,
       HandleFieldCommands [cmd_a]] @ fin @ [ConnClose]"
    using k ty x by simp
  then have e: "\<exists>cmds fin. new_ops w_known (snd (Eventstore_writeEvents es_cockroach [cmd_a] w_known)) =
      [Conn, TypeForValue, BeginTx txOptions, QueryContext (push2Stmt es_cockroach) cmds,
       RowsClose, HandleUniqueConstraints [cmd_a], Exec enable_multiple_modifications,
       HandleFieldCommands [cmd_a]] @ fin @ [ConnClose]"
    by (intro exI)
  from cockroach_setting [where es = es_ok and cs = "[cmd_a]" and w = w_known] no
  have ne: "Exec enable_multiple_modifications \<notin>
      set (new_ops w_known (snd (Push es_ok [cmd_a] w_known)))"
    by blast
  from c p b i u ty e no ne show ?thesis by (intro conjI)
qed

end
